theory Spec2Isabelle
  imports Complex_Main "HOL-Library.Word" "HOL-Library.Log_Nat"
begin

section \<open>JavaScript numbers\<close>

text \<open>
  A JavaScript number is an IEEE 754 double: \<^verbatim>\<open>NaN\<close>, one of the two infinities, or a finite
  value, kept as the rational number it denotes (negative zero is identified with zero).
\<close>

datatype number = NaN | PosInfinity | NegInfinity | Num rat

text \<open>
  The binary exponent of a non-zero rational \<open>x\<close>: the \<open>e\<close> with \<open>2^e \<le> |x| < 2^(e+1)\<close>, read
  off the bit length of the integer part of \<open>|x|\<close>, or of \<open>1/|x|\<close> when \<open>|x| < 1\<close>.
\<close>

definition binade :: "rat \<Rightarrow> int" where
  "binade x =
     (if 1 \<le> \<bar>x\<bar> then bitlen \<lfloor>\<bar>x\<bar>\<rfloor> - 1 else - bitlen (\<lceil>1 / \<bar>x\<bar>\<rceil> - 1))"

text \<open>Rounding to the nearest integer, a tie going to the even neighbour.\<close>

definition roundHalfEven :: "rat \<Rightarrow> int" where
  "roundHalfEven y =
     (let f = \<lfloor>y\<rfloor>; d = y - of_int f
      in if d < 1 / 2 then f else if 1 / 2 < d then f + 1 else if even f then f else f + 1)"

text \<open>
  The double nearest to an exact result: the doubles around \<open>x\<close> are the multiples of
  \<open>2^(e - 52)\<close> (of \<open>2^-1074\<close> in the subnormal range), a tie goes to the even multiple, and a
  result of magnitude \<open>2^1024\<close> or more overflows to an infinity.
\<close>

definition roundDouble :: "rat \<Rightarrow> number" where
  "roundDouble x =
     (if x = 0 then Num 0
      else
        let u = 2 powi (max (binade x - 52) (- 1074));
            r = of_int (roundHalfEven (x / u)) * u
        in if 2 powi 1024 \<le> \<bar>r\<bar> then (if 0 < x then PosInfinity else NegInfinity)
           else Num r)"

text \<open>
  The arithmetic operators: on finite operands the exact result rounded by \<open>roundDouble\<close>,
  otherwise the IEEE 754 rules for \<^verbatim>\<open>NaN\<close> and the infinities.
\<close>

fun jsNeg :: "number \<Rightarrow> number" where
  "jsNeg NaN = NaN"
| "jsNeg PosInfinity = NegInfinity"
| "jsNeg NegInfinity = PosInfinity"
| "jsNeg (Num a) = Num (- a)"

fun jsAdd :: "number \<Rightarrow> number \<Rightarrow> number" where
  "jsAdd (Num a) (Num b) = roundDouble (a + b)"
| "jsAdd NaN y = NaN"
| "jsAdd x NaN = NaN"
| "jsAdd PosInfinity NegInfinity = NaN"
| "jsAdd NegInfinity PosInfinity = NaN"
| "jsAdd PosInfinity y = PosInfinity"
| "jsAdd x PosInfinity = PosInfinity"
| "jsAdd NegInfinity y = NegInfinity"
| "jsAdd x NegInfinity = NegInfinity"

text \<open>\<^verbatim>\<open>x - y\<close>.\<close>

definition jsSub :: "number \<Rightarrow> number \<Rightarrow> number" where
  "jsSub x y = jsAdd x (jsNeg y)"

text \<open>The infinity of a given sign.\<close>

definition infinityOfSign :: "bool \<Rightarrow> number" where
  "infinityOfSign positive = (if positive then PosInfinity else NegInfinity)"

text \<open>\<^verbatim>\<open>x * y\<close>.\<close>

fun jsMul :: "number \<Rightarrow> number \<Rightarrow> number" where
  "jsMul (Num a) (Num b) = roundDouble (a * b)"
| "jsMul NaN y = NaN"
| "jsMul x NaN = NaN"
| "jsMul PosInfinity (Num b) = (if b = 0 then NaN else infinityOfSign (0 < b))"
| "jsMul NegInfinity (Num b) = (if b = 0 then NaN else infinityOfSign (b < 0))"
| "jsMul (Num a) PosInfinity = (if a = 0 then NaN else infinityOfSign (0 < a))"
| "jsMul (Num a) NegInfinity = (if a = 0 then NaN else infinityOfSign (a < 0))"
| "jsMul PosInfinity PosInfinity = PosInfinity"
| "jsMul NegInfinity NegInfinity = PosInfinity"
| "jsMul PosInfinity NegInfinity = NegInfinity"
| "jsMul NegInfinity PosInfinity = NegInfinity"

text \<open>\<^verbatim>\<open>x / y\<close>; a zero divisor is the positive zero.\<close>

fun jsDiv :: "number \<Rightarrow> number \<Rightarrow> number" where
  "jsDiv (Num a) (Num b) =
     (if b = 0 then (if a = 0 then NaN else infinityOfSign (0 < a)) else roundDouble (a / b))"
| "jsDiv NaN y = NaN"
| "jsDiv x NaN = NaN"
| "jsDiv (Num a) y = Num 0"
| "jsDiv PosInfinity (Num b) = infinityOfSign (0 \<le> b)"
| "jsDiv NegInfinity (Num b) = infinityOfSign (b < 0)"
| "jsDiv x y = NaN"

text \<open>\<^verbatim>\<open>Math.ceil\<close>.\<close>

fun mathCeil :: "number \<Rightarrow> number" where
  "mathCeil (Num a) = Num (of_int \<lceil>a\<rceil>)"
| "mathCeil x = x"

text \<open>
  \<open>Date tv\<close> is the object \<^verbatim>\<open>new Date(tv)\<close> for an integral \<open>tv\<close>: its time value is \<open>tv\<close> when
  \<open>|tv| \<le> 8.64 * 10^15\<close>, and \<^verbatim>\<open>NaN\<close> (an invalid date) otherwise.
\<close>

datatype Date = Date int

definition getTime :: "Date \<Rightarrow> number" where
  "getTime d = (case d of Date tv \<Rightarrow> if \<bar>tv\<bar> \<le> 8640000000000000 then Num (of_int tv) else NaN)"

section \<open>Booking model: the pre-save middleware\<close>

text \<open>
  \<^verbatim>\<open>src/models/bookings/Booking.model.ts\<close>. An optional field is an \<open>option\<close>, \<open>None\<close> being
  \<^verbatim>\<open>undefined\<close>. The fields of the document that the middleware does not touch live in the
  extension part of the record.
\<close>

record GuestCount =
  adults :: number
  children :: "number option"
  total :: "number option"

record Booking =
  checkIn :: "Date option"
  checkOut :: "Date option"
  nights :: "number option"
  guests :: "GuestCount option"

text \<open>
  JavaScript truthiness of an optional number: \<^verbatim>\<open>undefined\<close>, \<open>0\<close> and \<^verbatim>\<open>NaN\<close> are falsy. A
  \<^verbatim>\<open>Date\<close> object is always truthy, so a date field is truthy exactly when it is present.
\<close>

fun truthyNumber :: "number \<Rightarrow> bool" where
  "truthyNumber NaN = False"
| "truthyNumber (Num a) = (a \<noteq> 0)"
| "truthyNumber x = True"

definition truthy :: "number option \<Rightarrow> bool" where
  "truthy v = (case v of None \<Rightarrow> False | Some n \<Rightarrow> truthyNumber n)"

text \<open>\<^verbatim>\<open>x || 0\<close> on an optional number.\<close>

definition orZero :: "number option \<Rightarrow> number" where
  "orZero v = (case v of None \<Rightarrow> Num 0 | Some n \<Rightarrow> if truthyNumber n then n else Num 0)"

text \<open>The divisor \<^verbatim>\<open>1000 * 60 * 60 * 24\<close> of the source.\<close>

definition msPerDay :: number where
  "msPerDay = jsMul (jsMul (jsMul (Num 1000) (Num 60)) (Num 60)) (Num 24)"

text \<open>
  First statement of the hook:
  \<^verbatim>\<open>if (!this.nights && this.checkIn && this.checkOut) {
     const diffTime = this.checkOut.getTime() - this.checkIn.getTime();
     this.nights = Math.ceil(diffTime / (1000 * 60 * 60 * 24)); }\<close>
\<close>

definition calcNights :: "'a Booking_scheme \<Rightarrow> 'a Booking_scheme" where
  "calcNights this =
     (case (checkIn this, checkOut this) of
        (Some ci, Some co) \<Rightarrow>
          if \<not> truthy (nights this)
          then (let diffTime = jsSub (getTime co) (getTime ci)
                in this\<lparr>nights := Some (mathCeil (jsDiv diffTime msPerDay))\<rparr>)
          else this
      | _ \<Rightarrow> this)"

text \<open>
  Second statement of the hook:
  \<^verbatim>\<open>if (this.guests && !this.guests.total) {
     this.guests.total = this.guests.adults + (this.guests.children || 0); }\<close>
\<close>

definition calcTotal :: "'a Booking_scheme \<Rightarrow> 'a Booking_scheme" where
  "calcTotal this =
     (case guests this of
        None \<Rightarrow> this
      | Some g \<Rightarrow>
          if \<not> truthy (total g)
          then this\<lparr>guests := Some (g\<lparr>total := Some (jsAdd (adults g) (orZero (children g)))\<rparr>)\<rparr>
          else this)"

text \<open>\<^verbatim>\<open>bookingSchema.pre('save', function() { ... })\<close>: the two statements in order.\<close>

definition preSave :: "'a Booking_scheme \<Rightarrow> 'a Booking_scheme" where
  "preSave this = calcTotal (calcNights this)"

text \<open>
  Time values of the dates used in the examples: 2024-01-01T00:00:00Z is 19723 days after
  the epoch, 2024-01-04T00:00:00Z is 19726 days after it.
\<close>

definition jan01_2024 :: Date where
  "jan01_2024 = Date (19723 * 86400000)"

definition jan04_2024 :: Date where
  "jan04_2024 = Date (19726 * 86400000)"

section \<open>Search controller: data\<close>

text \<open>
  The search controller (\<^verbatim>\<open>unifiedSearch\<close> and \<^verbatim>\<open>autocomplete\<close>). A JavaScript string is
  a sequence of UTF-16 code units; \<^verbatim>\<open>.length\<close> counts them and \<^verbatim>\<open>.trim()\<close> works on them.
  String literals of the source that are only passed on (messages, field paths) stay
  Isabelle strings.
\<close>

type_synonym codeunit = "16 word"
type_synonym jsstring = "codeunit list"

definition js :: "string \<Rightarrow> jsstring" where
  "js s = map of_char s"

text \<open>
  \<^verbatim>\<open>String.prototype.trim\<close> strips ECMAScript WhiteSpace (TAB, VT, FF, ZWNBSP and the
  space separators) and LineTerminator (LF, CR, LS, PS) code units from both ends.
\<close>

definition isWhiteSpace :: "codeunit \<Rightarrow> bool" where
  "isWhiteSpace c = (c \<in> set [0x9, 0xA, 0xB, 0xC, 0xD, 0x20, 0xA0, 0x1680, 0x2000, 0x2001,
     0x2002, 0x2003, 0x2004, 0x2005, 0x2006, 0x2007, 0x2008, 0x2009, 0x200A, 0x2028, 0x2029,
     0x202F, 0x205F, 0x3000, 0xFEFF])"

definition trim :: "jsstring \<Rightarrow> jsstring" where
  "trim s = rev (dropWhile isWhiteSpace (rev (dropWhile isWhiteSpace s)))"

text \<open>\<^verbatim>\<open>x || d\<close> on an optional string: \<^verbatim>\<open>undefined\<close> and the empty string are falsy.\<close>

definition orElse :: "jsstring option \<Rightarrow> jsstring \<Rightarrow> jsstring" where
  "orElse v d = (case v of None \<Rightarrow> d | Some s \<Rightarrow> if s = [] then d else s)"

text \<open>The three Mongoose models, a regular expression object, and the filter documents.\<close>

datatype Model = HomestayModel | GuideModel | ProductModel

datatype RegExp = RegExp (source: jsstring) (flags: string)

datatype Cond =
    Equals string string
  | Matches string RegExp
  | Or "Cond list"

type_synonym Filter = "Cond list"

text \<open>
  A \<^verbatim>\<open>find\<close> query as the builder chain leaves it: \<^verbatim>\<open>.select\<close>, \<^verbatim>\<open>.skip\<close> (absent in
  \<^verbatim>\<open>autocomplete\<close>) and \<^verbatim>\<open>.limit\<close>.
\<close>

record FindQuery =
  model :: Model
  conditions :: Filter
  select :: string
  skip :: "number option"
  limit :: int

datatype Stage =
    Match Filter
  | GroupCount string
  | Limit int

datatype Query =
    Find FindQuery
  | CountDocuments Model Filter
  | Aggregate Model "Stage list"

text \<open>
  A lean document restricted to the fields the controller reads (\<^verbatim>\<open>_id\<close>, \<^verbatim>\<open>title\<close>,
  \<^verbatim>\<open>name\<close>, \<^verbatim>\<open>images\<close>); a search result item is the document with its \<^verbatim>\<open>type\<close> tag; a
  group of the district aggregation has \<^verbatim>\<open>_id\<close> (the district) and \<^verbatim>\<open>count\<close>.
\<close>

record LeanDoc =
  doc_id :: string
  title :: jsstring
  name :: jsstring
  images :: "jsstring list option"

record SearchItem = LeanDoc +
  item_type :: string

record LocationGroup =
  loc_id :: jsstring
  loc_count :: nat

record Suggestion =
  sug_text :: jsstring
  sug_type :: string
  sug_id :: "string option"
  sug_count :: "nat option"

text \<open>A thrown value: the \<^verbatim>\<open>SyntaxError\<close> of \<^verbatim>\<open>new RegExp\<close>, or a rejection of a query.\<close>

datatype Error = SyntaxError jsstring | QueryError string

text \<open>
  What the controller is given and does not define: the pagination parser of
  \<^verbatim>\<open>response.utils\<close> (from the raw \<^verbatim>\<open>page\<close> and \<^verbatim>\<open>limit\<close> parameters to the pair
  \<^verbatim>\<open>{page, limit}\<close>), whether a pattern is accepted by \<^verbatim>\<open>new RegExp(pattern, 'i')\<close>, and the
  database behind the three models.
\<close>

record Env =
  parsePaginationParams :: "jsstring option \<Rightarrow> jsstring option \<Rightarrow> int \<times> int"
  regExpValid :: "jsstring \<Rightarrow> bool"
  dbFind :: "FindQuery \<Rightarrow> Error + LeanDoc list"
  dbCountDocuments :: "Model \<Rightarrow> Filter \<Rightarrow> Error + nat"
  dbAggregate :: "Model \<Rightarrow> Stage list \<Rightarrow> Error + LocationGroup list"

text \<open>The query parameters of a request (\<^verbatim>\<open>req.query.q\<close>, \<^verbatim>\<open>.type\<close>, \<^verbatim>\<open>.page\<close>, \<^verbatim>\<open>.limit\<close>).\<close>

record Request =
  query_q :: "jsstring option"
  query_type :: "jsstring option"
  query_page :: "jsstring option"
  query_limit :: "jsstring option"

text \<open>
  The response is the call made on the envelope helpers: \<^verbatim>\<open>sendSuccess(res, data)\<close> or
  \<^verbatim>\<open>sendError(res, message, status, errors?)\<close>.
\<close>

record FieldError =
  field :: string
  message :: string

datatype 'a Response =
    SendSuccess 'a
  | SendError string int "FieldError list option"

record Total =
  homestaysCount :: nat
  guidesCount :: nat
  productsCount :: nat
  overall :: nat

record Results =
  homestays :: "SearchItem list"
  guides :: "SearchItem list"
  products :: "SearchItem list"
  total' :: Total

text \<open>
  The payload of a successful search; \<open>pagination\<close> holds the arguments handed to
  \<^verbatim>\<open>getPaginationMeta(page, limit, total.overall)\<close>.
\<close>

record SearchPayload =
  results :: Results
  query :: jsstring
  pagination :: "int \<times> int \<times> nat"

section \<open>Search controller: promises\<close>

text \<open>
  A settled promise is its outcome, \<open>Inl\<close> a rejection. \<^verbatim>\<open>Promise.all\<close> over a fixed
  number of promises rejects as soon as one of them rejects, and otherwise resolves to
  all the values in order.
\<close>

definition all2 :: "'e + 'a \<Rightarrow> 'e + 'b \<Rightarrow> 'e + ('a \<times> 'b)" where
  "all2 a b =
     (case a of Inl e \<Rightarrow> Inl e | Inr x \<Rightarrow>
      case b of Inl e \<Rightarrow> Inl e | Inr y \<Rightarrow> Inr (x, y))"

definition all3 :: "'e + 'a \<Rightarrow> 'e + 'b \<Rightarrow> 'e + 'c \<Rightarrow> 'e + ('a \<times> 'b \<times> 'c)" where
  "all3 a b c =
     (case a of Inl e \<Rightarrow> Inl e | Inr x \<Rightarrow>
      case all2 b c of Inl e \<Rightarrow> Inl e | Inr yz \<Rightarrow> Inr (x, yz))"

definition all4 ::
  "'e + 'a \<Rightarrow> 'e + 'b \<Rightarrow> 'e + 'c \<Rightarrow> 'e + 'd \<Rightarrow> 'e + ('a \<times> 'b \<times> 'c \<times> 'd)" where
  "all4 a b c d =
     (case a of Inl e \<Rightarrow> Inl e | Inr x \<Rightarrow>
      case all3 b c d of Inl e \<Rightarrow> Inl e | Inr yzw \<Rightarrow> Inr (x, yzw))"

text \<open>The promises that were created from a query, in the order of their creation.\<close>

fun issuedOf :: "'q option list \<Rightarrow> 'q list" where
  "issuedOf [] = []"
| "issuedOf (None # qs) = issuedOf qs"
| "issuedOf (Some q # qs) = q # issuedOf qs"

section \<open>Search controller: \<^verbatim>\<open>unifiedSearch\<close>\<close>

text \<open>The test \<^verbatim>\<open>type === 'all' || type === '<t>'\<close> that guards every query of a type.\<close>

definition active :: "jsstring \<Rightarrow> string \<Rightarrow> bool" where
  "active ty t = (ty = js ''all'' \<or> ty = js t)"

text \<open>The filter documents of the three models, used by the fetch and by the count.\<close>

definition homestayFilter :: "RegExp \<Rightarrow> Filter" where
  "homestayFilter searchRegex =
     [Equals ''status'' ''active'',
      Or [Matches ''title'' searchRegex, Matches ''description'' searchRegex,
          Matches ''location.district'' searchRegex, Matches ''location.address'' searchRegex]]"

definition guideFilter :: "RegExp \<Rightarrow> Filter" where
  "guideFilter searchRegex =
     [Or [Matches ''name'' searchRegex, Matches ''bio'' searchRegex,
          Matches ''specializations'' searchRegex, Matches ''location.district'' searchRegex]]"

definition productFilter :: "RegExp \<Rightarrow> Filter" where
  "productFilter searchRegex =
     [Or [Matches ''title'' searchRegex, Matches ''description'' searchRegex,
          Matches ''category'' searchRegex]]"

text \<open>
  The paginated fetch of each type: \<open>Some\<close> the query when the type is active, \<open>None\<close> for
  \<^verbatim>\<open>Promise.resolve([])\<close>. The page and the limit are the integers of the parser, and
  \<^verbatim>\<open>(page - 1) * limit\<close> is computed on numbers.
\<close>

definition homestaysFind :: "jsstring \<Rightarrow> int \<Rightarrow> int \<Rightarrow> RegExp \<Rightarrow> FindQuery option" where
  "homestaysFind ty pg pageSize searchRegex =
     (if active ty ''homestays''
      then Some \<lparr>model = HomestayModel, conditions = homestayFilter searchRegex,
                 select = ''title description location.district location.state pricing.basePrice images'',
                 skip = Some (jsMul (jsSub (Num (of_int pg)) (Num 1)) (Num (of_int pageSize))),
                 limit = pageSize\<rparr>
      else None)"

definition guidesFind :: "jsstring \<Rightarrow> int \<Rightarrow> int \<Rightarrow> RegExp \<Rightarrow> FindQuery option" where
  "guidesFind ty pg pageSize searchRegex =
     (if active ty ''guides''
      then Some \<lparr>model = GuideModel, conditions = guideFilter searchRegex,
                 select = ''name bio specializations pricing.fullDay'',
                 skip = Some (jsMul (jsSub (Num (of_int pg)) (Num 1)) (Num (of_int pageSize))),
                 limit = pageSize\<rparr>
      else None)"

definition productsFind :: "jsstring \<Rightarrow> int \<Rightarrow> int \<Rightarrow> RegExp \<Rightarrow> FindQuery option" where
  "productsFind ty pg pageSize searchRegex =
     (if active ty ''products''
      then Some \<lparr>model = ProductModel, conditions = productFilter searchRegex,
                 select = ''title description category price.amount images'',
                 skip = Some (jsMul (jsSub (Num (of_int pg)) (Num 1)) (Num (of_int pageSize))),
                 limit = pageSize\<rparr>
      else None)"

text \<open>The count of each type: \<open>None\<close> for \<^verbatim>\<open>Promise.resolve(0)\<close>.\<close>

definition homestaysCountQuery :: "jsstring \<Rightarrow> RegExp \<Rightarrow> Query option" where
  "homestaysCountQuery ty searchRegex =
     (if active ty ''homestays''
      then Some (CountDocuments HomestayModel (homestayFilter searchRegex)) else None)"

definition guidesCountQuery :: "jsstring \<Rightarrow> RegExp \<Rightarrow> Query option" where
  "guidesCountQuery ty searchRegex =
     (if active ty ''guides''
      then Some (CountDocuments GuideModel (guideFilter searchRegex)) else None)"

definition productsCountQuery :: "jsstring \<Rightarrow> RegExp \<Rightarrow> Query option" where
  "productsCountQuery ty searchRegex =
     (if active ty ''products''
      then Some (CountDocuments ProductModel (productFilter searchRegex)) else None)"

text \<open>
  The \<^verbatim>\<open>.then\<close> mappings: the document with its \<^verbatim>\<open>type\<close> tag, and for homestays and
  products \<^verbatim>\<open>images: x.images?.slice(0, 1) || []\<close>.
\<close>

definition firstImage :: "jsstring list option \<Rightarrow> jsstring list option" where
  "firstImage imgs = Some (case imgs of None \<Rightarrow> [] | Some xs \<Rightarrow> take 1 xs)"

definition homestayItem :: "LeanDoc \<Rightarrow> SearchItem" where
  "homestayItem h = \<lparr>doc_id = doc_id h, title = title h, name = name h,
     images = firstImage (images h), item_type = ''homestay''\<rparr>"

definition guideItem :: "LeanDoc \<Rightarrow> SearchItem" where
  "guideItem g = \<lparr>doc_id = doc_id g, title = title g, name = name g,
     images = images g, item_type = ''guide''\<rparr>"

definition productItem :: "LeanDoc \<Rightarrow> SearchItem" where
  "productItem p = \<lparr>doc_id = doc_id p, title = title p, name = name p,
     images = firstImage (images p), item_type = ''product''\<rparr>"

text \<open>The outcome of a search promise and of a count promise.\<close>

definition fetch ::
  "Env \<Rightarrow> (LeanDoc \<Rightarrow> SearchItem) \<Rightarrow> FindQuery option \<Rightarrow> Error + SearchItem list" where
  "fetch env f q =
     (case q of
        None \<Rightarrow> Inr []
      | Some fq \<Rightarrow> (case dbFind env fq of Inl e \<Rightarrow> Inl e | Inr docs \<Rightarrow> Inr (map f docs)))"

definition runQuery :: "Env \<Rightarrow> Query \<Rightarrow> Error + unit" where
  "runQuery env q =
     (case q of
        Find fq \<Rightarrow> map_sum (\<lambda>e. e) (\<lambda>_. ()) (dbFind env fq)
      | CountDocuments m f \<Rightarrow> map_sum (\<lambda>e. e) (\<lambda>_. ()) (dbCountDocuments env m f)
      | Aggregate m stages \<Rightarrow> map_sum (\<lambda>e. e) (\<lambda>_. ()) (dbAggregate env m stages))"

definition countOf :: "Env \<Rightarrow> Query option \<Rightarrow> Error + nat" where
  "countOf env q =
     (case q of
        Some (CountDocuments m f) \<Rightarrow> dbCountDocuments env m f
      | _ \<Rightarrow> Inr 0)"

text \<open>
  \<^verbatim>\<open>const query = (req.query.q as string || '').trim()\<close> and
  \<^verbatim>\<open>const type = (req.query.type as SearchType) || 'all'\<close>.
\<close>

definition searchTerm :: "Request \<Rightarrow> jsstring" where
  "searchTerm req = trim (orElse (query_q req) [])"

definition searchType :: "Request \<Rightarrow> jsstring" where
  "searchType req = orElse (query_type req) (js ''all'')"

definition validationFailed :: "'a Response" where
  "validationFailed = SendError ''Validation failed'' 400
     (Some [\<lparr>field = ''q'', message = ''Search query must be at least 2 characters''\<rparr>])"

text \<open>
  \<^verbatim>\<open>unifiedSearch(req, res)\<close>: the queries it issues, in the order of their creation, and
  the response it sends. The whole body is inside \<^verbatim>\<open>try\<close>; the \<^verbatim>\<open>catch\<close> branch sends the
  fixed 500 response.
\<close>

definition unifiedSearch :: "Env \<Rightarrow> Request \<Rightarrow> Query list \<times> SearchPayload Response" where
  "unifiedSearch env req =
     (let qry = searchTerm req;
          ty = searchType req;
          (pg, pageSize) = parsePaginationParams env (query_page req) (query_limit req)
      in if length qry < 2 then ([], validationFailed)
         else if \<not> regExpValid env qry
         then ([], SendError ''Failed to perform search'' 500 None)
         else
           let searchRegex = RegExp qry ''i'';
               hq = homestaysFind ty pg pageSize searchRegex;
               gq = guidesFind ty pg pageSize searchRegex;
               pq = productsFind ty pg pageSize searchRegex;
               hc = homestaysCountQuery ty searchRegex;
               gc = guidesCountQuery ty searchRegex;
               pc = productsCountQuery ty searchRegex
           in (map Find (issuedOf [hq, gq, pq]) @ issuedOf [hc, gc, pc],
               case all2 (all3 (fetch env homestayItem hq) (fetch env guideItem gq)
                               (fetch env productItem pq))
                         (all3 (countOf env hc) (countOf env gc) (countOf env pc)) of
                 Inl e \<Rightarrow> SendError ''Failed to perform search'' 500 None
               | Inr ((hs, gs, ps), (hn, gn, pn)) \<Rightarrow>
                   SendSuccess
                     \<lparr>results = \<lparr>homestays = hs, guides = gs, products = ps,
                        total' = \<lparr>homestaysCount = hn, guidesCount = gn, productsCount = pn,
                                  overall = hn + gn + pn\<rparr>\<rparr>,
                      query = qry,
                      pagination = (pg, pageSize, hn + gn + pn)\<rparr>))"

section \<open>Search controller: \<^verbatim>\<open>autocomplete\<close>\<close>

definition homestayTitles :: "RegExp \<Rightarrow> FindQuery" where
  "homestayTitles searchRegex =
     \<lparr>model = HomestayModel,
      conditions = [Equals ''status'' ''active'', Matches ''title'' searchRegex],
      select = ''title'', skip = None, limit = 3\<rparr>"

definition guideNames :: "RegExp \<Rightarrow> FindQuery" where
  "guideNames searchRegex =
     \<lparr>model = GuideModel, conditions = [Matches ''name'' searchRegex],
      select = ''name'', skip = None, limit = 3\<rparr>"

definition productTitles :: "RegExp \<Rightarrow> FindQuery" where
  "productTitles searchRegex =
     \<lparr>model = ProductModel, conditions = [Matches ''title'' searchRegex],
      select = ''title'', skip = None, limit = 3\<rparr>"

definition districtPipeline :: "RegExp \<Rightarrow> Stage list" where
  "districtPipeline searchRegex =
     [Match [Matches ''location.district'' searchRegex], GroupCount ''$location.district'',
      Limit 3]"

definition locationSuggestion :: "LocationGroup \<Rightarrow> Suggestion" where
  "locationSuggestion loc =
     \<lparr>sug_text = loc_id loc, sug_type = ''location'', sug_id = None,
      sug_count = Some (loc_count loc)\<rparr>"

definition homestaySuggestion :: "LeanDoc \<Rightarrow> Suggestion" where
  "homestaySuggestion h =
     \<lparr>sug_text = title h, sug_type = ''homestay'', sug_id = Some (doc_id h), sug_count = None\<rparr>"

definition guideSuggestion :: "LeanDoc \<Rightarrow> Suggestion" where
  "guideSuggestion g =
     \<lparr>sug_text = name g, sug_type = ''guide'', sug_id = Some (doc_id g), sug_count = None\<rparr>"

definition productSuggestion :: "LeanDoc \<Rightarrow> Suggestion" where
  "productSuggestion p =
     \<lparr>sug_text = title p, sug_type = ''product'', sug_id = Some (doc_id p), sug_count = None\<rparr>"

text \<open>
  The pushes onto \<^verbatim>\<open>suggestions\<close> in the order of the source (locations, homestays,
  guides, products) and \<^verbatim>\<open>suggestions.slice(0, 10)\<close>.
\<close>

definition suggestionsOf ::
  "LocationGroup list \<Rightarrow> LeanDoc list \<Rightarrow> LeanDoc list \<Rightarrow> LeanDoc list \<Rightarrow> Suggestion list" where
  "suggestionsOf locations hs gs ps =
     take 10 (map locationSuggestion locations @ map homestaySuggestion hs
              @ map guideSuggestion gs @ map productSuggestion ps)"

definition autocomplete :: "Env \<Rightarrow> Request \<Rightarrow> Query list \<times> Suggestion list Response" where
  "autocomplete env req =
     (let qry = searchTerm req
      in if length qry < 2 then ([], validationFailed)
         else if \<not> regExpValid env qry
         then ([], SendError ''Failed to get suggestions'' 500 None)
         else
           let searchRegex = RegExp qry ''i''
           in ([Find (homestayTitles searchRegex), Find (guideNames searchRegex),
                Find (productTitles searchRegex),
                Aggregate HomestayModel (districtPipeline searchRegex)],
               case all4 (dbFind env (homestayTitles searchRegex))
                         (dbFind env (guideNames searchRegex))
                         (dbFind env (productTitles searchRegex))
                         (dbAggregate env HomestayModel (districtPipeline searchRegex)) of
                 Inl e \<Rightarrow> SendError ''Failed to get suggestions'' 500 None
               | Inr (hs, gs, ps, locations) \<Rightarrow>
                   SendSuccess (suggestionsOf locations hs gs ps)))"

section \<open>Notions used to state the properties\<close>

text \<open>A query fails when its promise rejects.\<close>

definition fails :: "Env \<Rightarrow> Query \<Rightarrow> bool" where
  "fails env q = isl (runQuery env q)"

text \<open>The model a query is issued on, and the regular expressions in its filter.\<close>

fun modelOf :: "Query \<Rightarrow> Model" where
  "modelOf (Find fq) = model fq"
| "modelOf (CountDocuments m f) = m"
| "modelOf (Aggregate m stages) = m"




text \<open>
  The contract of the database that the bounds on result lists rest on: a \<^verbatim>\<open>find\<close>
  with a positive \<^verbatim>\<open>limit\<close> returns at most that many documents, and a pipeline ending
  in a positive \<^verbatim>\<open>$limit\<close> stage returns at most that many groups.
\<close>

definition honoursLimit :: "Env \<Rightarrow> bool" where
  "honoursLimit env =
     ((\<forall>q docs. dbFind env q = Inr docs \<and> 0 < limit q \<longrightarrow> length docs \<le> nat (limit q))
      \<and> (\<forall>m stages n groups. dbAggregate env m (stages @ [Limit n]) = Inr groups \<and> 0 < n
            \<longrightarrow> length groups \<le> nat n))"

text \<open>The \<^verbatim>\<open>find\<close> queries among a list of queries.\<close>

fun findsOf :: "Query list \<Rightarrow> FindQuery list" where
  "findsOf [] = []"
| "findsOf (Find fq # qs) = fq # findsOf qs"
| "findsOf (q # qs) = findsOf qs"

section \<open>An in-memory database\<close>

text \<open>
  A database over three fixed collections in which every document matches every filter:
  \<^verbatim>\<open>skip\<close> drops, a positive \<^verbatim>\<open>limit\<close> takes, \<^verbatim>\<open>limit(0)\<close> is no limit, and an aggregation
  is cut by a final \<^verbatim>\<open>$limit\<close> stage. The pagination parser is a constant and every pattern
  is a valid regular expression.
\<close>

fun skipped :: "number option \<Rightarrow> nat" where
  "skipped (Some (Num a)) = nat \<lfloor>a\<rfloor>"
| "skipped sk = 0"

definition paginate :: "number option \<Rightarrow> int \<Rightarrow> 'a list \<Rightarrow> 'a list" where
  "paginate sk lm xs =
     (let ys = drop (skipped sk) xs
      in if lm = 0 then ys else take (nat \<bar>lm\<bar>) ys)"

definition stagesLimit :: "Stage list \<Rightarrow> int" where
  "stagesLimit stages = (case rev stages of Limit n # ss \<Rightarrow> n | _ \<Rightarrow> 0)"

definition collection ::
  "LeanDoc list \<Rightarrow> LeanDoc list \<Rightarrow> LeanDoc list \<Rightarrow> Model \<Rightarrow> LeanDoc list" where
  "collection hs gs ps m =
     (case m of HomestayModel \<Rightarrow> hs | GuideModel \<Rightarrow> gs | ProductModel \<Rightarrow> ps)"

definition memEnv ::
  "int \<times> int \<Rightarrow> LeanDoc list \<Rightarrow> LeanDoc list \<Rightarrow> LeanDoc list \<Rightarrow> LocationGroup list \<Rightarrow> Env" where
  "memEnv pl hs gs ps locs =
     \<lparr>parsePaginationParams = (\<lambda>p l. pl),
      regExpValid = (\<lambda>s. True),
      dbFind = (\<lambda>q. Inr (paginate (skip q) (limit q) (collection hs gs ps (model q)))),
      dbCountDocuments = (\<lambda>m f. Inr (length (collection hs gs ps m))),
      dbAggregate = (\<lambda>m stages. Inr (paginate None (stagesLimit stages) locs))\<rparr>"

definition doc :: "string \<Rightarrow> string \<Rightarrow> LeanDoc" where
  "doc i t = \<lparr>doc_id = i, title = js t, name = js t, images = Some [js ''a'', js ''b'']\<rparr>"

definition sampleHomestays :: "LeanDoc list" where
  "sampleHomestays = [doc ''h1'' ''Rani Stay'', doc ''h2'' ''Rani View'', doc ''h3'' ''Rani Home'',
     doc ''h4'' ''Rani Hut'', doc ''h5'' ''Rani Inn'', doc ''h6'' ''Rani Den'']"

definition sampleGuides :: "LeanDoc list" where
  "sampleGuides = [doc ''g1'' ''Rani Walk'', doc ''g2'' ''Rani Trek'', doc ''g3'' ''Rani Tour'']"

definition sampleProducts :: "LeanDoc list" where
  "sampleProducts = [doc ''p1'' ''Rani Art'', doc ''p2'' ''Rani Silk'', doc ''p3'' ''Rani Craft'']"

definition sampleLocations :: "LocationGroup list" where
  "sampleLocations = [\<lparr>loc_id = js ''Rani'', loc_count = 4\<rparr>,
     \<lparr>loc_id = js ''Rani East'', loc_count = 2\<rparr>, \<lparr>loc_id = js ''Rani West'', loc_count = 1\<rparr>,
     \<lparr>loc_id = js ''Rani Hill'', loc_count = 1\<rparr>]"

text \<open>The sample database, with the parser answering page 2 and limit 5.\<close>

definition sampleEnv :: Env where
  "sampleEnv = memEnv (2, 5) sampleHomestays sampleGuides sampleProducts sampleLocations"

text \<open>A request with the raw \<^verbatim>\<open>q\<close> and \<^verbatim>\<open>type\<close> parameters given, for page 2 and limit 5.\<close>

definition sampleRequest :: "string \<Rightarrow> string option \<Rightarrow> Request" where
  "sampleRequest q ty =
     \<lparr>query_q = Some (js q), query_type = map_option js ty,
      query_page = Some (js ''2''), query_limit = Some (js ''5'')\<rparr>"

text \<open>The sample database with the parser answering page \<open>2^53\<close> and limit 7.\<close>

definition farPageEnv :: Env where
  "farPageEnv = memEnv (9007199254740992, 7) sampleHomestays sampleGuides sampleProducts
     sampleLocations"

text \<open>The sample database with every count query failing, and with the aggregation failing.\<close>

definition countsDown :: Env where
  "countsDown = sampleEnv\<lparr>dbCountDocuments := (\<lambda>m f. Inl (QueryError ''connection lost''))\<rparr>"

definition aggregateDown :: Env where
  "aggregateDown = sampleEnv\<lparr>dbAggregate := (\<lambda>m stages. Inl (QueryError ''connection lost''))\<rparr>"

section \<open>Lemmas on double arithmetic\<close>

lemma binade_bounds:
  assumes "x \<noteq> 0"
  shows "2 powi binade x \<le> \<bar>x\<bar> \<and> \<bar>x\<bar> < 2 powi (binade x + 1)"
proof (cases "1 \<le> \<bar>x\<bar>")
  case True
  define n where "n = \<lfloor>\<bar>x\<bar>\<rfloor>"
  have n: "0 < n" using True by (simp add: n_def)
  have e: "binade x = bitlen n - 1" using True by (simp add: binade_def n_def)
  have b1: "1 \<le> bitlen n" using n by (simp add: bitlen_alt_def)
  from bitlen_bounds [OF n] have lo: "2 ^ nat (bitlen n - 1) \<le> n" and hi: "n < 2 ^ nat (bitlen n)"
    by auto
  have "(2::rat) powi (bitlen n - 1) = 2 ^ nat (bitlen n - 1)"
    using b1 by (simp add: power_int_def)
  also have "\<dots> = of_int (2 ^ nat (bitlen n - 1))" by simp
  also have "\<dots> \<le> of_int n" using lo by (simp only: of_int_le_iff)
  also have "\<dots> \<le> \<bar>x\<bar>" by (simp add: n_def)
  finally have 1: "2 powi binade x \<le> \<bar>x\<bar>" by (simp add: e)
  have "n + 1 \<le> 2 ^ nat (bitlen n)" using hi by simp
  then have "(of_int (n + 1) :: rat) \<le> of_int (2 ^ nat (bitlen n))" by (simp only: of_int_le_iff)
  moreover have "\<bar>x\<bar> < of_int (n + 1)" unfolding n_def by linarith
  ultimately have "\<bar>x\<bar> < 2 ^ nat (bitlen n)" by simp
  also have "\<dots> = 2 powi (bitlen n)" using b1 by (simp add: power_int_def)
  finally have 2: "\<bar>x\<bar> < 2 powi (binade x + 1)" by (simp add: e)
  from 1 2 show ?thesis by simp
next
  case False
  define a where "a = \<bar>x\<bar>"
  have a: "0 < a" "a < 1" using assms False by (simp_all add: a_def)
  define y where "y = 1 / a"
  have y: "1 < y" using a by (simp add: y_def)
  define c where "c = \<lceil>y\<rceil>"
  have c: "2 \<le> c" using y unfolding c_def by linarith
  have cy: "of_int c - 1 < y" "y \<le> of_int c" unfolding c_def by linarith+
  define j where "j = bitlen (c - 1)"
  have e: "binade x = - j" using False by (simp add: binade_def j_def c_def y_def a_def)
  have j1: "1 \<le> j" using c by (simp add: j_def bitlen_alt_def)
  from bitlen_bounds [of "c - 1"] c
  have lo: "2 ^ nat (j - 1) \<le> c - 1" and hi: "c - 1 < 2 ^ nat j"
    by (auto simp add: j_def)
  have "(of_int (2 ^ nat (j - 1)) :: rat) \<le> of_int (c - 1)" using lo by (simp only: of_int_le_iff)
  then have ylo: "2 ^ nat (j - 1) < y" using cy(1) by simp
  have "c \<le> 2 ^ nat j" using hi by simp
  then have "(of_int c :: rat) \<le> of_int (2 ^ nat j)" by (simp only: of_int_le_iff)
  then have "(of_int c :: rat) \<le> 2 ^ nat j" by (simp only: of_int_power of_int_numeral)
  with cy(2) have yhi: "y \<le> 2 ^ nat j" by (rule order_trans)
  have ay: "a = 1 / y" using a by (simp add: y_def)
  have "0 < 2 ^ nat j * y" using y by (simp add: zero_less_mult_iff)
  with yhi have "1 / 2 ^ nat j \<le> a" unfolding ay
    by (intro divide_left_mono) simp_all
  moreover have "(2::rat) powi (- j) = 1 / 2 ^ nat j"
    using j1 by (simp add: power_int_def field_simps)
  ultimately have 1: "2 powi binade x \<le> \<bar>x\<bar>" by (simp add: e a_def)
  have "0 < y * 2 ^ nat (j - 1)" using y by (simp add: zero_less_mult_iff)
  with ylo have "a < 1 / 2 ^ nat (j - 1)" unfolding ay
    by (intro divide_strict_left_mono) simp_all
  moreover have "(2::rat) powi (- j + 1) = 1 / 2 ^ nat (j - 1)"
  proof (cases "j = 1")
    case True
    then show ?thesis by simp
  next
    case False
    with j1 have "- j + 1 < 0" by simp
    then show ?thesis by (simp add: power_int_def field_simps nat_diff_distrib)
  qed
  ultimately have 2: "\<bar>x\<bar> < 2 powi (binade x + 1)" by (simp add: e a_def)
  from 1 2 show ?thesis by simp
qed

lemma binade_unique:
  assumes "2 powi e \<le> \<bar>x\<bar>" and "\<bar>x\<bar> < 2 powi (e + 1)"
  shows "binade x = e"
proof -
  have "(0::rat) < 2 powi e" by (rule zero_less_power_int) simp
  then have "0 < \<bar>x\<bar>" using assms(1) by (rule less_le_trans)
  then have x: "x \<noteq> 0" by simp
  note b = binade_bounds [OF x]
  have "\<not> binade x < e"
  proof
    assume "binade x < e"
    then have "binade x + 1 \<le> e" by simp
    then have "(2::rat) powi (binade x + 1) \<le> 2 powi e" by (intro power_int_increasing) simp_all
    with b assms(1) show False by simp
  qed
  moreover have "\<not> e < binade x"
  proof
    assume "e < binade x"
    then have "e + 1 \<le> binade x" by simp
    then have "(2::rat) powi (e + 1) \<le> 2 powi binade x" by (intro power_int_increasing) simp_all
    with b assms(2) show False by simp
  qed
  ultimately show ?thesis by simp
qed

lemma roundHalfEven_int: "y \<in> \<int> \<Longrightarrow> of_int (roundHalfEven y) = y"
  by (auto simp add: roundHalfEven_def Let_def elim!: Ints_cases)

lemma roundHalfEven_error: "\<bar>of_int (roundHalfEven y) - y\<bar> \<le> 1 / 2"
proof -
  have "of_int \<lfloor>y\<rfloor> \<le> y" "y < of_int \<lfloor>y\<rfloor> + 1" by linarith+
  then show ?thesis by (auto simp add: roundHalfEven_def Let_def)
qed

lemma le_exp_of_power_int_less:
  assumes "(2::rat) powi e \<le> a" and "a < 2 powi k"
  shows "e < k"
proof (rule ccontr)
  assume "\<not> e < k"
  then have "k \<le> e" by simp
  then have "(2::rat) powi k \<le> 2 powi e" by (intro power_int_increasing) simp_all
  with assms show False by simp
qed

lemma roundDouble_safe:
  assumes "x \<in> \<int>" and "\<bar>x\<bar> < 2 ^ 53"
  shows "roundDouble x = Num x"
proof (cases "x = 0")
  case True
  then show ?thesis by (simp add: roundDouble_def)
next
  case False
  from assms(1) obtain n where n: "x = of_int n" by (auto elim: Ints_cases)
  with False have "n \<noteq> 0" by simp
  then have "1 \<le> \<bar>n\<bar>" by simp
  then have "(of_int 1 :: rat) \<le> of_int \<bar>n\<bar>" by (simp only: of_int_le_iff)
  then have one: "1 \<le> \<bar>x\<bar>" by (simp add: n)
  note b = binade_bounds [OF False]
  have "(2::rat) powi 0 \<le> \<bar>x\<bar>" using one by simp
  with b have "0 < binade x + 1" by (intro le_exp_of_power_int_less [of 0 "\<bar>x\<bar>"]) simp_all
  then have e0: "0 \<le> binade x" by simp
  have "\<bar>x\<bar> < 2 powi 53" using assms(2) by simp
  with b have e53: "binade x < 53" by (intro le_exp_of_power_int_less [of _ "\<bar>x\<bar>"]) simp_all
  define j where "j = nat (52 - binade x)"
  have m: "max (binade x - 52) (- 1074) = - int j" using e0 e53 by (simp add: j_def)
  have u: "(2::rat) powi (- int j) = 1 / 2 ^ j" by (simp add: power_int_minus_divide)
  have "x / (1 / 2 ^ j) = of_int (n * 2 ^ j)" by (simp add: n)
  then have "x / (1 / 2 ^ j) \<in> \<int>" by (simp only: Ints_of_int)
  then have "of_int (roundHalfEven (x / (1 / 2 ^ j))) = x / (1 / 2 ^ j)"
    by (rule roundHalfEven_int)
  then have r: "of_int (roundHalfEven (x / (1 / 2 ^ j))) * (1 / 2 ^ j) = x" by simp
  have "\<bar>x\<bar> < 2 powi 1024"
  proof -
    have "(2::rat) powi 53 \<le> 2 powi 1024" by (intro power_int_increasing) simp_all
    with \<open>\<bar>x\<bar> < 2 powi 53\<close> show ?thesis by simp
  qed
  then have "\<not> 2 powi 1024 \<le> \<bar>x\<bar>" by simp
  with False show ?thesis
    unfolding roundDouble_def Let_def m u r by simp
qed

lemma roundDouble_near:
  assumes "x \<noteq> 0" and "binade x \<le> 26"
  shows "\<exists>r j. roundDouble x = Num r \<and> \<bar>r - x\<bar> \<le> 1 / 2 ^ 27
     \<and> r = of_int (roundHalfEven (x * 2 ^ j)) / 2 ^ j"
proof -
  define j where "j = nat (- max (binade x - 52) (- 1074))"
  have m: "max (binade x - 52) (- 1074) = - int j" using assms(2) by (simp add: j_def)
  have j26: "26 \<le> j" using assms(2) by (simp add: j_def)
  have u: "(2::rat) powi (- int j) = 1 / 2 ^ j" by (simp add: power_int_minus_divide)
  define k where "k = roundHalfEven (x * 2 ^ j)"
  define r where "r = (of_int k :: rat) / 2 ^ j"
  have "\<bar>of_int k - x * 2 ^ j\<bar> \<le> 1 / 2" unfolding k_def by (rule roundHalfEven_error)
  then have "\<bar>of_int k - x * 2 ^ j\<bar> / 2 ^ j \<le> (1 / 2) / 2 ^ j"
    by (intro divide_right_mono) simp_all
  moreover have "\<bar>of_int k - x * 2 ^ j\<bar> / 2 ^ j = \<bar>r - x\<bar>"
  proof -
    have "r - x = (of_int k - x * 2 ^ j) / 2 ^ j" by (simp add: r_def field_simps)
    then show ?thesis by (simp add: abs_divide)
  qed
  ultimately have err: "\<bar>r - x\<bar> \<le> 1 / 2 ^ Suc j" by simp
  have "(2::rat) ^ 27 \<le> 2 ^ Suc j" using j26 by (intro power_increasing) simp_all
  then have "1 / (2::rat) ^ Suc j \<le> 1 / 2 ^ 27" by (intro divide_left_mono) simp_all
  with err have err27: "\<bar>r - x\<bar> \<le> 1 / 2 ^ 27" by (rule order_trans)
  from binade_bounds [OF assms(1)] have "\<bar>x\<bar> < 2 powi (binade x + 1)" by simp
  also have "\<dots> \<le> 2 powi 27" using assms(2) by (intro power_int_increasing) simp_all
  finally have "\<bar>x\<bar> < 2 ^ 27" by simp
  moreover have "\<bar>r - x\<bar> \<le> 1" using err27 by simp
  moreover have "\<bar>r\<bar> \<le> \<bar>r - x\<bar> + \<bar>x\<bar>" by simp
  ultimately have "\<bar>r\<bar> < 2 ^ 27 + 1" by linarith
  also have "\<dots> \<le> (2::rat) ^ 1024" by simp
  finally have "\<not> 2 powi 1024 \<le> \<bar>r\<bar>" by simp
  moreover have "of_int (roundHalfEven (x / (1 / 2 ^ j))) * (1 / 2 ^ j) = r"
    by (simp add: r_def k_def)
  ultimately have "roundDouble x = Num r"
    using assms(1) unfolding roundDouble_def Let_def m u by simp
  with err27 show ?thesis unfolding r_def k_def by blast
qed

lemma ceil_div_day:
  assumes "\<bar>d\<bar> < 2 ^ 53"
  shows "mathCeil (jsDiv (Num (of_int d)) (Num 86400000))
           = Num (of_int \<lceil>(of_int d :: rat) / 86400000\<rceil>)"
proof (cases "d = 0")
  case True
  then show ?thesis by (simp add: roundDouble_def)
next
  case False
  define q where "q = (of_int d :: rat) / 86400000"
  have q0: "q \<noteq> 0" using False by (simp add: q_def)
  have "(of_int \<bar>d\<bar> :: rat) < of_int (2 ^ 53)" using assms by (simp only: of_int_less_iff)
  then have "\<bar>q\<bar> < 2 ^ 53 / 86400000" by (simp add: q_def)
  also have "\<dots> < (2::rat) ^ 27" by simp
  finally have "\<bar>q\<bar> < 2 powi 27" by simp
  with binade_bounds [OF q0] have "binade q < 27"
    by (intro le_exp_of_power_int_less [of _ "\<bar>q\<bar>"]) simp_all
  then have "binade q \<le> 26" by simp
  from roundDouble_near [OF q0 this] obtain r j where
    r: "roundDouble q = Num r" "\<bar>r - q\<bar> \<le> 1 / 2 ^ 27"
      "r = of_int (roundHalfEven (q * 2 ^ j)) / 2 ^ j"
    by blast
  define n where "n = \<lceil>q\<rceil>"
  have "\<lceil>r\<rceil> = n"
  proof (cases "q \<in> \<int>")
    case True
    then have "q * 2 ^ j \<in> \<int>" by (auto elim!: Ints_cases intro: Ints_mult)
    then have "of_int (roundHalfEven (q * 2 ^ j)) = q * 2 ^ j" by (rule roundHalfEven_int)
    with r(3) have "r = q" by simp
    then show ?thesis by (simp add: n_def)
  next
    case False
    have nq: "of_int n - 1 < q" "q \<le> of_int n" unfolding n_def by linarith+
    have "q \<noteq> of_int n" using False by auto
    with nq have nq': "q < of_int n" by simp
    have "(of_int (n - 1) :: rat) * 86400000 < of_int d" using nq(1) by (simp add: q_def)
    then have "(of_int ((n - 1) * 86400000) :: rat) < of_int d" by simp
    then have "(n - 1) * 86400000 < d" by (simp only: of_int_less_iff)
    then have "(n - 1) * 86400000 + 1 \<le> d" by simp
    then have "(of_int ((n - 1) * 86400000 + 1) :: rat) \<le> of_int d" by (simp only: of_int_le_iff)
    then have lo: "of_int n - 1 + 1 / 86400000 \<le> q" by (simp add: q_def)
    have "(of_int d :: rat) < of_int n * 86400000" using nq' by (simp add: q_def)
    then have "(of_int d :: rat) < of_int (n * 86400000)" by simp
    then have "d < n * 86400000" by (simp only: of_int_less_iff)
    then have "d + 1 \<le> n * 86400000" by simp
    then have "(of_int (d + 1) :: rat) \<le> of_int (n * 86400000)" by (simp only: of_int_le_iff)
    then have hi: "q + 1 / 86400000 \<le> of_int n" by (simp add: q_def)
    have small: "(1::rat) / 2 ^ 27 < 1 / 86400000" by simp
    from r(2) have "q - 1 / 2 ^ 27 \<le> r" "r \<le> q + 1 / 2 ^ 27" by linarith+
    with lo hi small have "of_int n - 1 < r" "r \<le> of_int n" by linarith+
    then show ?thesis by (simp add: ceiling_unique)
  qed
  with r(1) show ?thesis by (simp add: q_def n_def)
qed


lemma roundDouble_binade:
  assumes "2 powi e \<le> \<bar>x\<bar>" and "\<bar>x\<bar> < 2 powi (e + 1)"
  shows "roundDouble x =
     (let u = 2 powi (max (e - 52) (- 1074));
          r = of_int (roundHalfEven (x / u)) * u
      in if 2 powi 1024 \<le> \<bar>r\<bar> then (if 0 < x then PosInfinity else NegInfinity) else Num r)"
proof -
  have "(0::rat) < 2 powi e" by (rule zero_less_power_int) simp
  then have "0 < \<bar>x\<bar>" using assms(1) by (rule less_le_trans)
  then have "x \<noteq> 0" by simp
  then show ?thesis by (simp add: roundDouble_def binade_unique [OF assms])
qed

lemma jsAdd_safe:
  "a \<in> \<int> \<Longrightarrow> b \<in> \<int> \<Longrightarrow> \<bar>a + b\<bar> < 2 ^ 53 \<Longrightarrow> jsAdd (Num a) (Num b) = Num (a + b)"
  by (simp add: roundDouble_safe)

lemma jsSub_safe:
  "a \<in> \<int> \<Longrightarrow> b \<in> \<int> \<Longrightarrow> \<bar>a - b\<bar> < 2 ^ 53 \<Longrightarrow> jsSub (Num a) (Num b) = Num (a - b)"
  by (simp add: jsSub_def roundDouble_safe)

lemma jsMul_safe:
  "a \<in> \<int> \<Longrightarrow> b \<in> \<int> \<Longrightarrow> \<bar>a * b\<bar> < 2 ^ 53 \<Longrightarrow> jsMul (Num a) (Num b) = Num (a * b)"
  by (simp add: roundDouble_safe)

lemma msPerDay_eq: "msPerDay = Num 86400000"
  by (simp add: msPerDay_def roundDouble_safe)

lemma roundDouble_12096000000000001: "roundDouble 12096000000000001 = Num 12096000000000000"
proof -
  have "\<lfloor>(12096000000000001::rat) / 2\<rfloor> = 6048000000000000"
    by (rule floor_unique) simp_all
  then show ?thesis
    by (subst roundDouble_binade [of 53]) (simp_all add: roundHalfEven_def Let_def)
qed

lemma roundDouble_9007199254740993: "roundDouble 9007199254740993 = Num 9007199254740992"
proof -
  have "\<lfloor>(9007199254740993::rat) / 2\<rfloor> = 4503599627370496"
    by (rule floor_unique) simp_all
  then show ?thesis
    by (subst roundDouble_binade [of 53]) (simp_all add: roundHalfEven_def Let_def)
qed

lemma roundDouble_63050394783186937: "roundDouble 63050394783186937 = Num 63050394783186936"
proof -
  have "\<lfloor>(63050394783186937::rat) / 8\<rfloor> = 7881299347898367"
    by (rule floor_unique) simp_all
  then show ?thesis
    by (subst roundDouble_binade [of 55]) (simp_all add: roundHalfEven_def Let_def)
qed

section \<open>Properties of the pre-save middleware\<close>

lemma nights_calcTotal: "nights (calcTotal b) = nights b"
  by (simp add: calcTotal_def split: option.splits)

lemma guests_calcNights: "guests (calcNights b) = guests b"
  by (simp add: calcNights_def Let_def split: option.splits)

lemma nights_preSave_truthy:
  "truthy (nights b) \<Longrightarrow> nights (preSave b) = nights b"
  by (simp add: preSave_def nights_calcTotal calcNights_def split: option.splits)

lemma total_preSave_truthy:
  "guests b = Some g \<Longrightarrow> truthy (total g) \<Longrightarrow> guests (preSave b) = Some g"
  by (simp add: preSave_def calcTotal_def guests_calcNights)

lemma nights_of_valid_dates:
  assumes "\<bar>ci\<bar> \<le> 8640000000000000" and "\<bar>co\<bar> \<le> 8640000000000000" and "\<bar>co - ci\<bar> < 2 ^ 53"
  shows "mathCeil (jsDiv (jsSub (getTime (Date co)) (getTime (Date ci))) msPerDay)
           = Num (of_int \<lceil>(of_int (co - ci) :: rat) / 86400000\<rceil>)"
proof -
  have "(of_int \<bar>co - ci\<bar> :: rat) < of_int (2 ^ 53)" using assms(3) by (simp only: of_int_less_iff)
  then have "\<bar>(of_int co :: rat) - of_int ci\<bar> < 2 ^ 53" by simp
  then have "jsSub (Num (of_int co)) (Num (of_int ci)) = Num (of_int co - of_int ci)"
    by (intro jsSub_safe) simp_all
  then have "jsSub (getTime (Date co)) (getTime (Date ci)) = Num (of_int (co - ci))"
    using assms(1,2) by (simp add: getTime_def)
  then show ?thesis by (simp only: msPerDay_eq ceil_div_day [OF assms(3)])
qed

text \<open>
  C1 (fails on the code). The claim: a supplied \<open>nights\<close> or \<open>guests.total\<close> is never
  overwritten. The guards of the hook test truthiness, not presence, so a supplied \<open>0\<close> is
  taken for an absent value: a booking saved with \<open>nights = 0\<close>, check-in 2024-01-01 and
  check-out 2024-01-04 leaves the hook with \<open>nights = 3\<close>, and its supplied
  \<open>guests.total = 0\<close> (2 adults, 1 child) is replaced by \<open>3\<close>.
\<close>

theorem preSave_overwrites_supplied_zero:
  "nights (preSave \<lparr>checkIn = Some jan01_2024, checkOut = Some jan04_2024,
       nights = Some (Num 0),
       guests = Some \<lparr>adults = Num 2, children = Some (Num 1), total = Some (Num 0)\<rparr>\<rparr>)
     = Some (Num 3)
   \<and> guests (preSave \<lparr>checkIn = Some jan01_2024, checkOut = Some jan04_2024,
       nights = Some (Num 0),
       guests = Some \<lparr>adults = Num 2, children = Some (Num 1), total = Some (Num 0)\<rparr>\<rparr>)
     = Some \<lparr>adults = Num 2, children = Some (Num 1), total = Some (Num 3)\<rparr>"
  by (simp add: preSave_def calcNights_def calcTotal_def truthy_def orZero_def
      jan01_2024_def jan04_2024_def msPerDay_eq getTime_def jsSub_safe roundDouble_safe)

text \<open>
  C2 as stated fails on the code: the subtraction of the two time values is a double
  subtraction. For check-in at \<open>-8640000000000000\<close> and check-out at \<open>3456000000000001\<close> the
  difference \<open>12096000000000001\<close> is rounded to \<open>12096000000000000\<close>, which is exactly
  140000000 days, while the ceiling of the exact quotient is 140000001.
\<close>

theorem preSave_nights_rounded_difference:
  "nights (preSave \<lparr>checkIn = Some (Date (- 8640000000000000)),
       checkOut = Some (Date 3456000000000001), nights = None, guests = None\<rparr>)
     = Some (Num 140000000)
   \<and> \<lceil>(of_int (3456000000000001 - (- 8640000000000000)) :: rat) / 86400000\<rceil> = 140000001"
proof -
  have "\<lceil>(12096000000000001 :: rat) / 86400000\<rceil> = 140000001"
    by (rule ceiling_unique) simp_all
  then show ?thesis
    by (simp add: preSave_def calcNights_def calcTotal_def truthy_def msPerDay_eq getTime_def
        jsSub_def roundDouble_12096000000000001 roundDouble_safe)
qed

text \<open>
  C2, amended. With \<open>nights\<close> unset and both dates set to valid dates whose time values
  differ by less than \<open>2^53\<close> milliseconds, the hook sets \<open>nights\<close> to the ceiling of the
  difference of the two time values divided by 86,400,000; for check-in 2024-01-01 and
  check-out 2024-01-04 the value is 3.
\<close>

theorem preSave_derives_nights:
  "(nights b = None \<and> checkIn b = Some (Date ci) \<and> checkOut b = Some (Date co)
      \<and> \<bar>ci\<bar> \<le> 8640000000000000 \<and> \<bar>co\<bar> \<le> 8640000000000000 \<and> \<bar>co - ci\<bar> < 2 ^ 53
      \<longrightarrow> nights (preSave b) = Some (Num (of_int \<lceil>(of_int (co - ci) :: rat) / 86400000\<rceil>)))
   \<and> nights (preSave \<lparr>checkIn = Some jan01_2024, checkOut = Some jan04_2024, nights = None,
        guests = Some \<lparr>adults = Num 2, children = None, total = None\<rparr>\<rparr>) = Some (Num 3)"
proof (intro conjI impI)
  assume h: "nights b = None \<and> checkIn b = Some (Date ci) \<and> checkOut b = Some (Date co)
      \<and> \<bar>ci\<bar> \<le> 8640000000000000 \<and> \<bar>co\<bar> \<le> 8640000000000000 \<and> \<bar>co - ci\<bar> < 2 ^ 53"
  then have "mathCeil (jsDiv (jsSub (getTime (Date co)) (getTime (Date ci))) msPerDay)
           = Num (of_int \<lceil>(of_int (co - ci) :: rat) / 86400000\<rceil>)"
    by (intro nights_of_valid_dates) simp_all
  with h show "nights (preSave b) = Some (Num (of_int \<lceil>(of_int (co - ci) :: rat) / 86400000\<rceil>))"
    by (simp add: preSave_def nights_calcTotal calcNights_def truthy_def)
next
  show "nights (preSave \<lparr>checkIn = Some jan01_2024, checkOut = Some jan04_2024, nights = None,
        guests = Some \<lparr>adults = Num 2, children = None, total = None\<rparr>\<rparr>) = Some (Num 3)"
    by (simp add: preSave_def nights_calcTotal calcNights_def truthy_def
      jan01_2024_def jan04_2024_def msPerDay_eq getTime_def jsSub_safe roundDouble_safe)
qed

theorem preSave_derives_nights_witness:
  "nights (preSave \<lparr>checkIn = Some (Date 1704067200000), checkOut = Some (Date 1704326400000),
       nights = None, guests = None\<rparr>) = Some (Num 3)"
  using preSave_derives_nights
    [of "\<lparr>checkIn = Some (Date 1704067200000), checkOut = Some (Date 1704326400000),
          nights = None, guests = None\<rparr>" 1704067200000 1704326400000]
  by simp

text \<open>
  C9 as stated fails on the code: the sum is a double addition. For
  \<open>adults = 9007199254740992\<close> (\<open>2^53\<close>) and \<open>children = 1\<close> the hook stores the total
  \<open>9007199254740992\<close>, not \<open>9007199254740993\<close>.
\<close>

theorem preSave_total_rounded_sum:
  "guests (preSave \<lparr>checkIn = None, checkOut = None, nights = None,
       guests = Some \<lparr>adults = Num 9007199254740992, children = Some (Num 1), total = None\<rparr>\<rparr>)
     = Some \<lparr>adults = Num 9007199254740992, children = Some (Num 1),
              total = Some (Num 9007199254740992)\<rparr>
   \<and> (9007199254740992 + 1 :: rat) = 9007199254740993"
  by (simp add: preSave_def calcNights_def calcTotal_def truthy_def orZero_def
      roundDouble_9007199254740993)

text \<open>
  C9, amended. With \<open>guests.total\<close> unset and \<open>adults\<close> and \<open>children\<close> integers whose sum is
  below \<open>2^53\<close> in magnitude, the hook sets \<open>guests.total\<close> to \<open>adults\<close> plus \<open>children\<close>, an
  absent \<open>children\<close> counting as 0; for 2 adults and neither \<open>children\<close> nor \<open>total\<close> the
  total is 2.
\<close>

theorem preSave_derives_total:
  "(guests b = Some g \<and> total g = None \<and> adults g = Num (of_int a)
      \<and> (children g = None \<and> c = 0 \<or> children g = Some (Num (of_int c)))
      \<and> \<bar>a + c\<bar> < 2 ^ 53
      \<longrightarrow> guests (preSave b) = Some (g\<lparr>total := Some (Num (of_int (a + c)))\<rparr>))
   \<and> guests (preSave \<lparr>checkIn = Some jan01_2024, checkOut = Some jan04_2024, nights = None,
        guests = Some \<lparr>adults = Num 2, children = None, total = None\<rparr>\<rparr>)
     = Some \<lparr>adults = Num 2, children = None, total = Some (Num 2)\<rparr>"
proof (intro conjI impI)
  assume h: "guests b = Some g \<and> total g = None \<and> adults g = Num (of_int a)
      \<and> (children g = None \<and> c = 0 \<or> children g = Some (Num (of_int c)))
      \<and> \<bar>a + c\<bar> < 2 ^ 53"
  then have "(of_int \<bar>a + c\<bar> :: rat) < of_int (2 ^ 53)" by (simp only: of_int_less_iff)
  then have "\<bar>(of_int a :: rat) + of_int c\<bar> < 2 ^ 53" by simp
  then have s: "jsAdd (Num (of_int a)) (Num (of_int c)) = Num (of_int a + of_int c)"
    by (intro jsAdd_safe) simp_all
  from h have "orZero (children g) = Num (of_int c)"
    by (auto simp add: orZero_def)
  with h s show "guests (preSave b) = Some (g\<lparr>total := Some (Num (of_int (a + c)))\<rparr>)"
    by (simp add: preSave_def calcTotal_def guests_calcNights truthy_def)
next
  show "guests (preSave \<lparr>checkIn = Some jan01_2024, checkOut = Some jan04_2024, nights = None,
        guests = Some \<lparr>adults = Num 2, children = None, total = None\<rparr>\<rparr>)
     = Some \<lparr>adults = Num 2, children = None, total = Some (Num 2)\<rparr>"
    by (simp add: preSave_def calcTotal_def guests_calcNights truthy_def orZero_def
        roundDouble_safe)
qed

theorem preSave_derives_total_witness:
  "guests (preSave \<lparr>checkIn = None, checkOut = None, nights = Some (Num 1),
       guests = Some \<lparr>adults = Num 2, children = Some (Num 3), total = None\<rparr>\<rparr>)
     = Some \<lparr>adults = Num 2, children = Some (Num 3), total = Some (Num 5)\<rparr>
   \<and> guests (preSave \<lparr>checkIn = None, checkOut = None, nights = Some (Num 1),
       guests = Some \<lparr>adults = Num 4, children = None, total = None\<rparr>\<rparr>)
     = Some \<lparr>adults = Num 4, children = None, total = Some (Num 4)\<rparr>"
  using preSave_derives_total
    [of "\<lparr>checkIn = None, checkOut = None, nights = Some (Num 1),
          guests = Some \<lparr>adults = Num 2, children = Some (Num 3), total = None\<rparr>\<rparr>"
        "\<lparr>adults = Num 2, children = Some (Num 3), total = None\<rparr>" 2 3]
    preSave_derives_total
    [of "\<lparr>checkIn = None, checkOut = None, nights = Some (Num 1),
          guests = Some \<lparr>adults = Num 4, children = None, total = None\<rparr>\<rparr>"
        "\<lparr>adults = Num 4, children = None, total = None\<rparr>" 4 0]
  by simp

section \<open>Lemmas on the search controller\<close>

lemma js_type_names:
  "js ''homestays'' \<noteq> js ''all''" "js ''guides'' \<noteq> js ''all''" "js ''products'' \<noteq> js ''all''"
  "js ''homestays'' \<noteq> js ''guides''" "js ''homestays'' \<noteq> js ''products''"
  "js ''guides'' \<noteq> js ''products''" "js ''homestays'' \<noteq> []" "js ''guides'' \<noteq> []"
  "js ''products'' \<noteq> []"
  by (simp_all add: js_def)

lemma length_trim_le: "length (trim s) \<le> length s"
proof -
  have "length (trim s) \<le> length (dropWhile isWhiteSpace s)"
    unfolding trim_def using length_dropWhile_le [of isWhiteSpace "rev (dropWhile isWhiteSpace s)"]
    by simp
  also have "\<dots> \<le> length s" by (rule length_dropWhile_le)
  finally show ?thesis .
qed


lemma isl_all2: "isl (all2 a b) = (isl a \<or> isl b)"
  by (simp add: all2_def split: sum.splits)

lemma isl_all3: "isl (all3 a b c) = (isl a \<or> isl b \<or> isl c)"
  by (cases a; cases b; cases c) (simp_all add: all3_def all2_def)

lemma isl_all4: "isl (all4 a b c d) = (isl a \<or> isl b \<or> isl c \<or> isl d)"
  by (cases a; cases b; cases c; cases d) (simp_all add: all4_def all3_def all2_def)

lemma all2_Inr: "all2 a b = Inr (x, y) \<longleftrightarrow> a = Inr x \<and> b = Inr y"
  by (cases a; cases b) (auto simp add: all2_def)

lemma all3_Inr: "all3 a b c = Inr (x, y, z) \<longleftrightarrow> a = Inr x \<and> b = Inr y \<and> c = Inr z"
  by (cases a; cases b; cases c) (auto simp add: all3_def all2_def)

lemma all4_Inr:
  "all4 a b c d = Inr (x, y, z, w) \<longleftrightarrow> a = Inr x \<and> b = Inr y \<and> c = Inr z \<and> d = Inr w"
  by (cases a; cases b; cases c; cases d) (auto simp add: all4_def all3_def all2_def)

lemma active_cases:
  "active (js ''homestays'') ''homestays''" "\<not> active (js ''homestays'') ''guides''"
  "\<not> active (js ''homestays'') ''products''"
  "\<not> active (js ''guides'') ''homestays''" "active (js ''guides'') ''guides''"
  "\<not> active (js ''guides'') ''products''"
  "\<not> active (js ''products'') ''homestays''" "\<not> active (js ''products'') ''guides''"
  "active (js ''products'') ''products''"
  "active (js ''all'') t"
  by (simp_all add: active_def js_def)

lemma searchType_Some: "query_type req = Some ty \<Longrightarrow> ty \<noteq> [] \<Longrightarrow> searchType req = ty"
  by (simp add: searchType_def orElse_def)


lemma fetch_None: "fetch env f None = Inr xs \<longleftrightarrow> xs = []"
  by (auto simp add: fetch_def)

lemma countOf_None: "countOf env None = Inr n \<longleftrightarrow> n = 0"
  by (auto simp add: countOf_def)

lemma fails_simps:
  "fails env (Find fq) = isl (dbFind env fq)"
  "fails env (CountDocuments m f) = isl (dbCountDocuments env m f)"
  "fails env (Aggregate m stages) = isl (dbAggregate env m stages)"
  by (simp_all add: fails_def runQuery_def isl_map_sum)

lemma isl_fetch: "isl (fetch env f q) = (\<exists>fq. q = Some fq \<and> isl (dbFind env fq))"
  by (cases q) (auto simp add: fetch_def split: sum.splits)

lemma isl_countOf:
  "isl (countOf env q) = (\<exists>m f. q = Some (CountDocuments m f) \<and> isl (dbCountDocuments env m f))"
  by (cases q) (auto simp add: countOf_def split: Query.splits)

lemma set_issuedOf: "set (issuedOf qs) = {q. Some q \<in> set qs}"
  by (induction qs rule: issuedOf.induct) auto

lemma issuedOf_member: "Some q \<in> set qs \<Longrightarrow> f q \<in> set (map f (issuedOf qs) @ ys)"
  by (simp add: set_issuedOf)

lemma unifiedSearch_success:
  assumes "snd (unifiedSearch env req) = SendSuccess p"
    and "parsePaginationParams env (query_page req) (query_limit req) = (pg, pageSize)"
  shows "\<exists>hs gs ps hn gn pn.
      fetch env homestayItem
        (homestaysFind (searchType req) pg pageSize (RegExp (searchTerm req) ''i'')) = Inr hs
    \<and> fetch env guideItem
        (guidesFind (searchType req) pg pageSize (RegExp (searchTerm req) ''i'')) = Inr gs
    \<and> fetch env productItem
        (productsFind (searchType req) pg pageSize (RegExp (searchTerm req) ''i'')) = Inr ps
    \<and> countOf env (homestaysCountQuery (searchType req) (RegExp (searchTerm req) ''i'')) = Inr hn
    \<and> countOf env (guidesCountQuery (searchType req) (RegExp (searchTerm req) ''i'')) = Inr gn
    \<and> countOf env (productsCountQuery (searchType req) (RegExp (searchTerm req) ''i'')) = Inr pn
    \<and> p = \<lparr>results = \<lparr>homestays = hs, guides = gs, products = ps,
               total' = \<lparr>homestaysCount = hn, guidesCount = gn, productsCount = pn,
                         overall = hn + gn + pn\<rparr>\<rparr>,
             query = searchTerm req, pagination = (pg, pageSize, hn + gn + pn)\<rparr>"
  using assms
  by (auto simp add: unifiedSearch_def Let_def validationFailed_def all2_Inr all3_Inr
      split: if_splits sum.splits prod.splits)

lemma unifiedSearch_issued:
  assumes "2 \<le> length (searchTerm req)" and "regExpValid env (searchTerm req)"
    and "parsePaginationParams env (query_page req) (query_limit req) = (pg, pageSize)"
  shows "fst (unifiedSearch env req) =
      map Find (issuedOf
        [homestaysFind (searchType req) pg pageSize (RegExp (searchTerm req) ''i''),
         guidesFind (searchType req) pg pageSize (RegExp (searchTerm req) ''i''),
         productsFind (searchType req) pg pageSize (RegExp (searchTerm req) ''i'')])
      @ issuedOf
        [homestaysCountQuery (searchType req) (RegExp (searchTerm req) ''i''),
         guidesCountQuery (searchType req) (RegExp (searchTerm req) ''i''),
         productsCountQuery (searchType req) (RegExp (searchTerm req) ''i'')]"
  using assms by (simp add: unifiedSearch_def Let_def)

lemma unifiedSearch_issued_invalid:
  "\<not> (2 \<le> length (searchTerm req) \<and> regExpValid env (searchTerm req))
    \<Longrightarrow> fst (unifiedSearch env req) = []"
  by (auto simp add: unifiedSearch_def Let_def split: prod.splits)


lemma rejected_both:
  "length (searchTerm req) < 2 \<Longrightarrow>
     unifiedSearch env req = ([], validationFailed) \<and> autocomplete env req = ([], validationFailed)"
  by (simp add: unifiedSearch_def autocomplete_def Let_def split: prod.splits)

lemma overall_aux:
  "snd (unifiedSearch env req) = SendSuccess p \<Longrightarrow>
     overall (total' (results p))
       = homestaysCount (total' (results p)) + guidesCount (total' (results p))
         + productsCount (total' (results p))"
  using unifiedSearch_success [of env req p
      "fst (parsePaginationParams env (query_page req) (query_limit req))"
      "snd (parsePaginationParams env (query_page req) (query_limit req))"]
  by auto


lemma single_type:
  assumes ty: "searchType req = ty"
  shows "(\<forall>q\<in>set (fst (unifiedSearch env req)).
            (active ty ''homestays'' \<and> modelOf q = HomestayModel)
          \<or> (active ty ''guides'' \<and> modelOf q = GuideModel)
          \<or> (active ty ''products'' \<and> modelOf q = ProductModel))
       \<and> (\<forall>p. snd (unifiedSearch env req) = SendSuccess p \<longrightarrow>
            (\<not> active ty ''homestays'' \<longrightarrow>
               homestays (results p) = [] \<and> homestaysCount (total' (results p)) = 0)
          \<and> (\<not> active ty ''guides'' \<longrightarrow>
               guides (results p) = [] \<and> guidesCount (total' (results p)) = 0)
          \<and> (\<not> active ty ''products'' \<longrightarrow>
               products (results p) = [] \<and> productsCount (total' (results p)) = 0))"
proof (intro conjI allI impI ballI)
  fix q assume q: "q \<in> set (fst (unifiedSearch env req))"
  obtain pg pageSize where pp:
    "parsePaginationParams env (query_page req) (query_limit req) = (pg, pageSize)"
    by (cases "parsePaginationParams env (query_page req) (query_limit req)")
  show "(active ty ''homestays'' \<and> modelOf q = HomestayModel)
          \<or> (active ty ''guides'' \<and> modelOf q = GuideModel)
          \<or> (active ty ''products'' \<and> modelOf q = ProductModel)"
  proof (cases "2 \<le> length (searchTerm req) \<and> regExpValid env (searchTerm req)")
    case True
    with q pp ty show ?thesis
      by (auto simp add: unifiedSearch_issued [of req env pg pageSize] homestaysFind_def
          guidesFind_def productsFind_def homestaysCountQuery_def guidesCountQuery_def
          productsCountQuery_def split: if_splits)
  next
    case False
    with q show ?thesis by (simp add: unifiedSearch_issued_invalid)
  qed
next
  fix p assume p: "snd (unifiedSearch env req) = SendSuccess p"
  obtain pg pageSize where pp:
    "parsePaginationParams env (query_page req) (query_limit req) = (pg, pageSize)"
    by (cases "parsePaginationParams env (query_page req) (query_limit req)")
  note s = unifiedSearch_success [OF p pp, unfolded ty]
  { assume "\<not> active ty ''homestays''"
    with s show "homestays (results p) = []"
      by (auto simp add: homestaysFind_def fetch_None)
  }
  { assume "\<not> active ty ''homestays''"
    with s show "homestaysCount (total' (results p)) = 0"
      by (auto simp add: homestaysCountQuery_def countOf_None)
  }
  { assume "\<not> active ty ''guides''"
    with s show "guides (results p) = []"
      by (auto simp add: guidesFind_def fetch_None)
  }
  { assume "\<not> active ty ''guides''"
    with s show "guidesCount (total' (results p)) = 0"
      by (auto simp add: guidesCountQuery_def countOf_None)
  }
  { assume "\<not> active ty ''products''"
    with s show "products (results p) = []"
      by (auto simp add: productsFind_def fetch_None)
  }
  { assume "\<not> active ty ''products''"
    with s show "productsCount (total' (results p)) = 0"
      by (auto simp add: productsCountQuery_def countOf_None)
  }
qed

lemma unifiedSearch_rejected:
  assumes "2 \<le> length (searchTerm req)" and "regExpValid env (searchTerm req)"
    and "parsePaginationParams env (query_page req) (query_limit req) = (pg, pageSize)"
    and "isl (fetch env homestayItem
            (homestaysFind (searchType req) pg pageSize (RegExp (searchTerm req) ''i'')))
       \<or> isl (fetch env guideItem
            (guidesFind (searchType req) pg pageSize (RegExp (searchTerm req) ''i'')))
       \<or> isl (fetch env productItem
            (productsFind (searchType req) pg pageSize (RegExp (searchTerm req) ''i'')))
       \<or> isl (countOf env (homestaysCountQuery (searchType req) (RegExp (searchTerm req) ''i'')))
       \<or> isl (countOf env (guidesCountQuery (searchType req) (RegExp (searchTerm req) ''i'')))
       \<or> isl (countOf env (productsCountQuery (searchType req) (RegExp (searchTerm req) ''i'')))"
  shows "snd (unifiedSearch env req) = SendError ''Failed to perform search'' 500 None"
proof -
  let ?r = "all2 (all3 (fetch env homestayItem
            (homestaysFind (searchType req) pg pageSize (RegExp (searchTerm req) ''i'')))
          (fetch env guideItem
            (guidesFind (searchType req) pg pageSize (RegExp (searchTerm req) ''i'')))
          (fetch env productItem
            (productsFind (searchType req) pg pageSize (RegExp (searchTerm req) ''i''))))
        (all3 (countOf env (homestaysCountQuery (searchType req) (RegExp (searchTerm req) ''i'')))
          (countOf env (guidesCountQuery (searchType req) (RegExp (searchTerm req) ''i'')))
          (countOf env (productsCountQuery (searchType req) (RegExp (searchTerm req) ''i''))))"
  from assms(4) have "isl ?r" by (simp add: isl_all2 isl_all3)
  then obtain e where "?r = Inl e" by (cases ?r) auto
  with assms(1-3) show ?thesis by (simp add: unifiedSearch_def Let_def)
qed

lemma unifiedSearch_failure:
  assumes "q \<in> set (fst (unifiedSearch env req))" and "fails env q"
  shows "snd (unifiedSearch env req) = SendError ''Failed to perform search'' 500 None"
proof -
  obtain pg pageSize where pp:
    "parsePaginationParams env (query_page req) (query_limit req) = (pg, pageSize)"
    by (cases "parsePaginationParams env (query_page req) (query_limit req)")
  have valid: "2 \<le> length (searchTerm req)" "regExpValid env (searchTerm req)"
    using assms(1) unifiedSearch_issued_invalid [of req env] by fastforce+
  from assms(1) have "q \<in> Find ` {fq. Some fq \<in> set
        [homestaysFind (searchType req) pg pageSize (RegExp (searchTerm req) ''i''),
         guidesFind (searchType req) pg pageSize (RegExp (searchTerm req) ''i''),
         productsFind (searchType req) pg pageSize (RegExp (searchTerm req) ''i'')]}
      \<or> Some q \<in> set
        [homestaysCountQuery (searchType req) (RegExp (searchTerm req) ''i''),
         guidesCountQuery (searchType req) (RegExp (searchTerm req) ''i''),
         productsCountQuery (searchType req) (RegExp (searchTerm req) ''i'')]"
    unfolding unifiedSearch_issued [OF valid pp] set_append set_map set_issuedOf by blast
  then show ?thesis
  proof
    assume "q \<in> Find ` {fq. Some fq \<in> set
        [homestaysFind (searchType req) pg pageSize (RegExp (searchTerm req) ''i''),
         guidesFind (searchType req) pg pageSize (RegExp (searchTerm req) ''i''),
         productsFind (searchType req) pg pageSize (RegExp (searchTerm req) ''i'')]}"
    then obtain fq where fq: "q = Find fq"
      "Some fq = homestaysFind (searchType req) pg pageSize (RegExp (searchTerm req) ''i'')
       \<or> Some fq = guidesFind (searchType req) pg pageSize (RegExp (searchTerm req) ''i'')
       \<or> Some fq = productsFind (searchType req) pg pageSize (RegExp (searchTerm req) ''i'')"
      by auto
    from assms(2) fq(1) have "isl (dbFind env fq)" by (simp add: fails_simps)
    with fq(2) show ?thesis
      by (intro unifiedSearch_rejected [OF valid pp]) (auto simp add: isl_fetch)
  next
    assume c: "Some q \<in> set
        [homestaysCountQuery (searchType req) (RegExp (searchTerm req) ''i''),
         guidesCountQuery (searchType req) (RegExp (searchTerm req) ''i''),
         productsCountQuery (searchType req) (RegExp (searchTerm req) ''i'')]"
    then obtain m f where mf: "q = CountDocuments m f"
      by (auto simp add: homestaysCountQuery_def guidesCountQuery_def productsCountQuery_def
          split: if_splits)
    from assms(2) mf have "isl (dbCountDocuments env m f)" by (simp add: fails_simps)
    with c mf show ?thesis
      by (intro unifiedSearch_rejected [OF valid pp]) (auto simp add: isl_countOf)
  qed
qed

lemma autocomplete_failure:
  assumes "q \<in> set (fst (autocomplete env req))" and "fails env q"
  shows "snd (autocomplete env req) = SendError ''Failed to get suggestions'' 500 None"
proof -
  have valid: "2 \<le> length (searchTerm req)" "regExpValid env (searchTerm req)"
    using assms(1) by (auto simp add: autocomplete_def Let_def split: if_splits)
  let ?rx = "RegExp (searchTerm req) ''i''"
  let ?r = "all4 (dbFind env (homestayTitles ?rx)) (dbFind env (guideNames ?rx))
     (dbFind env (productTitles ?rx)) (dbAggregate env HomestayModel (districtPipeline ?rx))"
  from assms valid have "isl ?r"
    by (auto simp add: autocomplete_def Let_def isl_all4 fails_simps)
  then obtain e where "?r = Inl e" by (cases ?r) auto
  with valid show ?thesis by (simp add: autocomplete_def Let_def)
qed

lemma fetch_bounded:
  assumes "honoursLimit env" and "fetch env f q = Inr xs"
    and "\<And>fq. q = Some fq \<Longrightarrow> limit fq = n" and "0 < n"
  shows "length xs \<le> nat n"
proof (cases q)
  case None
  with assms(2) show ?thesis by (simp add: fetch_def)
next
  case (Some fq)
  with assms(2) obtain docs where d: "dbFind env fq = Inr docs" "xs = map f docs"
    by (auto simp add: fetch_def split: sum.splits)
  from assms(1) have "dbFind env fq = Inr docs \<and> 0 < limit fq \<longrightarrow> length docs \<le> nat (limit fq)"
    unfolding honoursLimit_def by (elim conjE allE)
  with d(1) assms(3) [OF Some] assms(4) have "length docs \<le> nat n" by simp
  with d(2) show ?thesis by simp
qed

lemma find_limit:
  "homestaysFind ty pg n rx = Some fq \<Longrightarrow>
     skip fq = Some (jsMul (jsSub (Num (of_int pg)) (Num 1)) (Num (of_int n)))
     \<and> limit fq = n \<and> model fq = HomestayModel"
  "guidesFind ty pg n rx = Some fq \<Longrightarrow>
     skip fq = Some (jsMul (jsSub (Num (of_int pg)) (Num 1)) (Num (of_int n)))
     \<and> limit fq = n \<and> model fq = GuideModel"
  "productsFind ty pg n rx = Some fq \<Longrightarrow>
     skip fq = Some (jsMul (jsSub (Num (of_int pg)) (Num 1)) (Num (of_int n)))
     \<and> limit fq = n \<and> model fq = ProductModel"
  by (auto simp add: homestaysFind_def guidesFind_def productsFind_def split: if_splits)

lemma skip_safe:
  assumes "\<bar>pg - 1\<bar> < 2 ^ 53" and "\<bar>(pg - 1) * n\<bar> < 2 ^ 53"
  shows "jsMul (jsSub (Num (of_int pg)) (Num 1)) (Num (of_int n)) = Num (of_int ((pg - 1) * n))"
proof -
  have "(of_int \<bar>pg - 1\<bar> :: rat) < of_int (2 ^ 53)" using assms(1) by (simp only: of_int_less_iff)
  then have "\<bar>(of_int pg :: rat) - 1\<bar> < 2 ^ 53" by simp
  then have s: "jsSub (Num (of_int pg)) (Num 1) = Num (of_int pg - 1)"
    by (intro jsSub_safe) simp_all
  have "(of_int \<bar>(pg - 1) * n\<bar> :: rat) < of_int (2 ^ 53)"
    using assms(2) by (simp only: of_int_less_iff)
  then have "\<bar>((of_int pg :: rat) - 1) * of_int n\<bar> < 2 ^ 53" by simp
  then have "jsMul (Num (of_int pg - 1)) (Num (of_int n)) = Num ((of_int pg - 1) * of_int n)"
    by (intro jsMul_safe) simp_all
  with s show ?thesis by simp
qed

lemma find_active:
  "active ty ''homestays'' \<Longrightarrow> \<exists>fq. homestaysFind ty pg n rx = Some fq \<and> model fq = HomestayModel"
  "active ty ''guides'' \<Longrightarrow> \<exists>fq. guidesFind ty pg n rx = Some fq \<and> model fq = GuideModel"
  "active ty ''products'' \<Longrightarrow> \<exists>fq. productsFind ty pg n rx = Some fq \<and> model fq = ProductModel"
  by (simp_all add: homestaysFind_def guidesFind_def productsFind_def)

lemma issued_finds:
  assumes "Find fq \<in> set (fst (unifiedSearch env req))"
    and pp: "parsePaginationParams env (query_page req) (query_limit req) = (pg, pageSize)"
  shows "skip fq = Some (jsMul (jsSub (Num (of_int pg)) (Num 1)) (Num (of_int pageSize)))
       \<and> limit fq = pageSize"
proof -
  have valid: "2 \<le> length (searchTerm req)" "regExpValid env (searchTerm req)"
    using assms(1) unifiedSearch_issued_invalid [of req env] by fastforce+
  from assms(1) have
    "Some fq = homestaysFind (searchType req) pg pageSize (RegExp (searchTerm req) ''i'')
       \<or> Some fq = guidesFind (searchType req) pg pageSize (RegExp (searchTerm req) ''i'')
       \<or> Some fq = productsFind (searchType req) pg pageSize (RegExp (searchTerm req) ''i'')"
    unfolding unifiedSearch_issued [OF valid pp] set_append set_map set_issuedOf
    by (auto simp add: homestaysCountQuery_def guidesCountQuery_def productsCountQuery_def
        split: if_splits)
  then show ?thesis using find_limit [of "searchType req" pg pageSize "RegExp (searchTerm req) ''i''" fq]
    by metis
qed

lemma active_issued:
  assumes "2 \<le> length (searchTerm req)" and "regExpValid env (searchTerm req)"
  shows "(active (searchType req) ''homestays''
            \<longrightarrow> (\<exists>fq. Find fq \<in> set (fst (unifiedSearch env req)) \<and> model fq = HomestayModel))
       \<and> (active (searchType req) ''guides''
            \<longrightarrow> (\<exists>fq. Find fq \<in> set (fst (unifiedSearch env req)) \<and> model fq = GuideModel))
       \<and> (active (searchType req) ''products''
            \<longrightarrow> (\<exists>fq. Find fq \<in> set (fst (unifiedSearch env req)) \<and> model fq = ProductModel))"
proof -
  obtain pg pageSize where pp:
    "parsePaginationParams env (query_page req) (query_limit req) = (pg, pageSize)"
    by (cases "parsePaginationParams env (query_page req) (query_limit req)")
  let ?rx = "RegExp (searchTerm req) ''i''"
  note iss = unifiedSearch_issued [OF assms pp]
  have "\<exists>fq. Find fq \<in> set (fst (unifiedSearch env req)) \<and> model fq = HomestayModel"
    if "active (searchType req) ''homestays''"
  proof -
    from find_active(1) [OF that, of pg pageSize ?rx] obtain fq where
      fq: "homestaysFind (searchType req) pg pageSize ?rx = Some fq" "model fq = HomestayModel"
      by blast
    have "Find fq \<in> set (fst (unifiedSearch env req))"
      unfolding iss by (rule issuedOf_member) (simp add: fq(1))
    with fq(2) show ?thesis by blast
  qed
  moreover have "\<exists>fq. Find fq \<in> set (fst (unifiedSearch env req)) \<and> model fq = GuideModel"
    if "active (searchType req) ''guides''"
  proof -
    from find_active(2) [OF that, of pg pageSize ?rx] obtain fq where
      fq: "guidesFind (searchType req) pg pageSize ?rx = Some fq" "model fq = GuideModel"
      by blast
    have "Find fq \<in> set (fst (unifiedSearch env req))"
      unfolding iss by (rule issuedOf_member) (simp add: fq(1))
    with fq(2) show ?thesis by blast
  qed
  moreover have "\<exists>fq. Find fq \<in> set (fst (unifiedSearch env req)) \<and> model fq = ProductModel"
    if "active (searchType req) ''products''"
  proof -
    from find_active(3) [OF that, of pg pageSize ?rx] obtain fq where
      fq: "productsFind (searchType req) pg pageSize ?rx = Some fq" "model fq = ProductModel"
      by blast
    have "Find fq \<in> set (fst (unifiedSearch env req))"
      unfolding iss by (rule issuedOf_member) (simp add: fq(1))
    with fq(2) show ?thesis by blast
  qed
  ultimately show ?thesis by blast
qed

lemma page_bounded:
  assumes "honoursLimit env" and "0 < pageSize"
    and pp: "parsePaginationParams env (query_page req) (query_limit req) = (pg, pageSize)"
    and p: "snd (unifiedSearch env req) = SendSuccess p"
  shows "length (homestays (results p)) \<le> nat pageSize
       \<and> length (guides (results p)) \<le> nat pageSize
       \<and> length (products (results p)) \<le> nat pageSize"
proof -
  from unifiedSearch_success [OF p pp] obtain hs gs ps where
    h: "fetch env homestayItem
        (homestaysFind (searchType req) pg pageSize (RegExp (searchTerm req) ''i'')) = Inr hs"
    and g: "fetch env guideItem
        (guidesFind (searchType req) pg pageSize (RegExp (searchTerm req) ''i'')) = Inr gs"
    and pr: "fetch env productItem
        (productsFind (searchType req) pg pageSize (RegExp (searchTerm req) ''i'')) = Inr ps"
    and r: "homestays (results p) = hs" "guides (results p) = gs" "products (results p) = ps"
    by auto
  have "length hs \<le> nat pageSize"
    by (rule fetch_bounded [OF assms(1) h _ assms(2)]) (simp add: find_limit)
  moreover have "length gs \<le> nat pageSize"
    by (rule fetch_bounded [OF assms(1) g _ assms(2)]) (simp add: find_limit)
  moreover have "length ps \<le> nat pageSize"
    by (rule fetch_bounded [OF assms(1) pr _ assms(2)]) (simp add: find_limit)
  ultimately show ?thesis using r by simp
qed





lemma autocomplete_success:
  assumes "2 \<le> length (searchTerm req)" and "regExpValid env (searchTerm req)"
    and "dbAggregate env HomestayModel (districtPipeline (RegExp (searchTerm req) ''i''))
           = Inr locations"
    and "dbFind env (homestayTitles (RegExp (searchTerm req) ''i'')) = Inr hs"
    and "dbFind env (guideNames (RegExp (searchTerm req) ''i'')) = Inr gs"
    and "dbFind env (productTitles (RegExp (searchTerm req) ''i'')) = Inr ps"
  shows "snd (autocomplete env req) = SendSuccess (suggestionsOf locations hs gs ps)"
  using assms by (simp add: autocomplete_def Let_def all4_def all3_def all2_def)

lemma quota_bounds:
  assumes "honoursLimit env"
    and "dbAggregate env HomestayModel (districtPipeline rx) = Inr locations"
    and "dbFind env (homestayTitles rx) = Inr hs"
    and "dbFind env (guideNames rx) = Inr gs"
    and "dbFind env (productTitles rx) = Inr ps"
  shows "length locations \<le> 3 \<and> length hs \<le> 3 \<and> length gs \<le> 3 \<and> length ps \<le> 3"
proof -
  have f: "length docs \<le> nat (limit q)" if "dbFind env q = Inr docs" and "0 < limit q"
    for q docs
  proof -
    from assms(1) have "\<forall>q docs. dbFind env q = Inr docs \<and> 0 < limit q
        \<longrightarrow> length docs \<le> nat (limit q)"
      unfolding honoursLimit_def by (rule conjunct1)
    then have "dbFind env q = Inr docs \<and> 0 < limit q \<longrightarrow> length docs \<le> nat (limit q)"
      by (elim allE)
    with that show ?thesis by simp
  qed
  have a: "length groups \<le> nat n"
    if "dbAggregate env m (stages @ [Limit n]) = Inr groups" and "0 < n" for m stages n groups
  proof -
    from assms(1) have "\<forall>m stages n groups.
        dbAggregate env m (stages @ [Limit n]) = Inr groups \<and> 0 < n \<longrightarrow> length groups \<le> nat n"
      unfolding honoursLimit_def by (rule conjunct2)
    then have "dbAggregate env m (stages @ [Limit n]) = Inr groups \<and> 0 < n
        \<longrightarrow> length groups \<le> nat n"
      by (elim allE)
    with that show ?thesis by simp
  qed
  have "dbAggregate env HomestayModel
      ([Match [Matches ''location.district'' rx], GroupCount ''$location.district''] @ [Limit 3])
      = Inr locations"
    using assms(2) by (simp add: districtPipeline_def)
  from a [OF this] have "length locations \<le> 3" by simp
  moreover from f [OF assms(3)] have "length hs \<le> 3" by (simp add: homestayTitles_def)
  moreover from f [OF assms(4)] have "length gs \<le> 3" by (simp add: guideNames_def)
  moreover from f [OF assms(5)] have "length ps \<le> 3" by (simp add: productTitles_def)
  ultimately show ?thesis by simp
qed

lemma full_quota:
  assumes "length locations = 3" and "length hs = 3" and "length gs = 3" and "length ps = 3"
  shows "suggestionsOf locations hs gs ps
           = map locationSuggestion locations @ map homestaySuggestion hs
             @ map guideSuggestion gs @ map productSuggestion (take 1 ps)
       \<and> length (suggestionsOf locations hs gs ps) = 10"
  using assms by (simp add: suggestionsOf_def take_map)

text \<open>Evaluation of the model on the sample database.\<close>

lemmas sample_defs = searchTerm_def searchType_def orElse_def
  trim_def isWhiteSpace_def js_def active_def homestaysFind_def guidesFind_def productsFind_def
  homestaysCountQuery_def guidesCountQuery_def productsCountQuery_def homestayFilter_def
  guideFilter_def productFilter_def fetch_def countOf_def all2_def all3_def all4_def
  homestayItem_def guideItem_def productItem_def firstImage_def validationFailed_def
  sampleEnv_def memEnv_def paginate_def collection_def sampleHomestays_def sampleGuides_def
  sampleProducts_def sampleLocations_def doc_def homestayTitles_def guideNames_def
  productTitles_def districtPipeline_def suggestionsOf_def locationSuggestion_def
  homestaySuggestion_def guideSuggestion_def productSuggestion_def sampleRequest_def
  countsDown_def aggregateDown_def farPageEnv_def stagesLimit_def fails_def runQuery_def
  jsSub_def roundDouble_safe Let_def

lemma stagesLimit_snoc: "stagesLimit (stages @ [Limit n]) = n"
  by (simp add: stagesLimit_def)

lemma length_paginate: "0 < lm \<Longrightarrow> length (paginate sk lm xs) \<le> nat lm"
  by (simp add: paginate_def Let_def)

lemma honoursLimit_memEnv: "honoursLimit (memEnv pl hs gs ps locs)"
  by (auto simp add: honoursLimit_def memEnv_def length_paginate stagesLimit_snoc)

section \<open>Properties of the search controller\<close>

text \<open>
  C3. When the term is valid and the four queries of \<^verbatim>\<open>autocomplete\<close> return, the suggestions
  sent are the first 10 of the location suggestions followed by the homestay, the guide and
  the product suggestions. A database that honours \<^verbatim>\<open>limit\<close> returns at most 3 entries per
  category; when each category returns 3, exactly 10 suggestions are sent: the 3 locations,
  3 homestays, 3 guides and the first product, the other two products being dropped.
\<close>

theorem autocomplete_order_and_truncation:
  assumes "2 \<le> length (searchTerm req)" and "regExpValid env (searchTerm req)"
    and "dbAggregate env HomestayModel (districtPipeline (RegExp (searchTerm req) ''i''))
           = Inr locations"
    and "dbFind env (homestayTitles (RegExp (searchTerm req) ''i'')) = Inr hs"
    and "dbFind env (guideNames (RegExp (searchTerm req) ''i'')) = Inr gs"
    and "dbFind env (productTitles (RegExp (searchTerm req) ''i'')) = Inr ps"
  shows "snd (autocomplete env req)
           = SendSuccess (take 10 (map locationSuggestion locations @ map homestaySuggestion hs
               @ map guideSuggestion gs @ map productSuggestion ps))
       \<and> (honoursLimit env \<longrightarrow>
            length locations \<le> 3 \<and> length hs \<le> 3 \<and> length gs \<le> 3 \<and> length ps \<le> 3)
       \<and> (length locations = 3 \<and> length hs = 3 \<and> length gs = 3 \<and> length ps = 3 \<longrightarrow>
            (\<exists>sugs. snd (autocomplete env req) = SendSuccess sugs \<and> length sugs = 10
               \<and> sugs = map locationSuggestion locations @ map homestaySuggestion hs
                   @ map guideSuggestion gs @ map productSuggestion (take 1 ps)))"
proof -
  note s = autocomplete_success [OF assms]
  have 1: "snd (autocomplete env req)
           = SendSuccess (take 10 (map locationSuggestion locations @ map homestaySuggestion hs
               @ map guideSuggestion gs @ map productSuggestion ps))"
    using s by (simp add: suggestionsOf_def)
  have 2: "honoursLimit env \<longrightarrow>
            length locations \<le> 3 \<and> length hs \<le> 3 \<and> length gs \<le> 3 \<and> length ps \<le> 3"
    using quota_bounds [OF _ assms(3-6)] by (rule impI)
  have 3: "length locations = 3 \<and> length hs = 3 \<and> length gs = 3 \<and> length ps = 3 \<longrightarrow>
            (\<exists>sugs. snd (autocomplete env req) = SendSuccess sugs \<and> length sugs = 10
               \<and> sugs = map locationSuggestion locations @ map homestaySuggestion hs
                   @ map guideSuggestion gs @ map productSuggestion (take 1 ps))"
    using s full_quota [of locations hs gs ps] by simp
  show ?thesis by (rule conjI [OF 1 conjI [OF 2 3]])
qed

theorem autocomplete_order_and_truncation_witness:
  "\<exists>sugs. autocomplete sampleEnv (sampleRequest '' Rani  '' None)
       = ([Find (homestayTitles (RegExp (js ''Rani'') ''i'')),
           Find (guideNames (RegExp (js ''Rani'') ''i'')),
           Find (productTitles (RegExp (js ''Rani'') ''i'')),
           Aggregate HomestayModel (districtPipeline (RegExp (js ''Rani'') ''i''))],
          SendSuccess sugs)
     \<and> length sugs = 10
     \<and> map sug_type sugs = [''location'', ''location'', ''location'', ''homestay'', ''homestay'',
          ''homestay'', ''guide'', ''guide'', ''guide'', ''product'']
     \<and> map sug_id sugs = [None, None, None, Some ''h1'', Some ''h2'', Some ''h3'', Some ''g1'',
          Some ''g2'', Some ''g3'', Some ''p1'']"
proof -
  let ?req = "sampleRequest '' Rani  '' None"
  have t: "searchTerm ?req = js ''Rani''" by (simp add: sample_defs)
  have h1: "2 \<le> length (searchTerm ?req)" by (simp add: t js_def)
  have h2: "regExpValid sampleEnv (searchTerm ?req)" by (simp add: sample_defs)
  have h3: "dbAggregate sampleEnv HomestayModel (districtPipeline (RegExp (searchTerm ?req) ''i''))
      = Inr (take 3 sampleLocations)"
    unfolding t by (simp add: sample_defs)
  have h4: "dbFind sampleEnv (homestayTitles (RegExp (searchTerm ?req) ''i''))
      = Inr (take 3 sampleHomestays)"
    unfolding t by (simp add: sample_defs)
  have h5: "dbFind sampleEnv (guideNames (RegExp (searchTerm ?req) ''i'')) = Inr sampleGuides"
    unfolding t by (simp add: sample_defs)
  have h6: "dbFind sampleEnv (productTitles (RegExp (searchTerm ?req) ''i'')) = Inr sampleProducts"
    unfolding t by (simp add: sample_defs)
  have hl: "honoursLimit sampleEnv" by (simp add: sampleEnv_def honoursLimit_memEnv)
  have n: "length (take 3 sampleLocations) = 3 \<and> length (take 3 sampleHomestays) = 3
      \<and> length sampleGuides = 3 \<and> length sampleProducts = 3"
    by (simp add: sampleLocations_def sampleHomestays_def sampleGuides_def sampleProducts_def)
  have i: "fst (autocomplete sampleEnv ?req)
       = [Find (homestayTitles (RegExp (js ''Rani'') ''i'')),
           Find (guideNames (RegExp (js ''Rani'') ''i'')),
           Find (productTitles (RegExp (js ''Rani'') ''i'')),
           Aggregate HomestayModel (districtPipeline (RegExp (js ''Rani'') ''i''))]"
    using h1 h2 by (simp add: autocomplete_def Let_def t)
  from autocomplete_order_and_truncation [OF h1 h2 h3 h4 h5 h6] hl n
  obtain sugs where s: "snd (autocomplete sampleEnv ?req) = SendSuccess sugs" "length sugs = 10"
    "sugs = map locationSuggestion (take 3 sampleLocations)
       @ map homestaySuggestion (take 3 sampleHomestays)
       @ map guideSuggestion sampleGuides @ map productSuggestion (take 1 sampleProducts)"
    by blast
  have "map sug_type sugs = [''location'', ''location'', ''location'', ''homestay'', ''homestay'',
          ''homestay'', ''guide'', ''guide'', ''guide'', ''product'']"
    unfolding s(3)
    by (simp add: sampleLocations_def sampleHomestays_def sampleGuides_def sampleProducts_def
        locationSuggestion_def homestaySuggestion_def guideSuggestion_def productSuggestion_def)
  moreover have "map sug_id sugs = [None, None, None, Some ''h1'', Some ''h2'', Some ''h3'',
      Some ''g1'', Some ''g2'', Some ''g3'', Some ''p1'']"
    unfolding s(3)
    by (simp add: sampleLocations_def sampleHomestays_def sampleGuides_def sampleProducts_def
        locationSuggestion_def homestaySuggestion_def guideSuggestion_def productSuggestion_def
        doc_def)
  ultimately show ?thesis using s(1,2) i by (auto simp add: prod_eq_iff)
qed

text \<open>
  C4. In every envelope that \<^verbatim>\<open>unifiedSearch\<close> sends, whatever the type filter, page and
  limit, the overall count is the sum of the three per-type counts.
\<close>

theorem overall_is_sum:
  "snd (unifiedSearch env req) = SendSuccess p \<Longrightarrow>
     overall (total' (results p))
       = homestaysCount (total' (results p)) + guidesCount (total' (results p))
         + productsCount (total' (results p))"
  by (rule overall_aux)

theorem overall_is_sum_witness:
  "\<exists>p. snd (unifiedSearch sampleEnv (sampleRequest '' Rani  '' None)) = SendSuccess p
     \<and> homestaysCount (total' (results p)) = 6 \<and> guidesCount (total' (results p)) = 3
     \<and> productsCount (total' (results p)) = 3 \<and> overall (total' (results p)) = 12"
proof -
  obtain p where p: "snd (unifiedSearch sampleEnv (sampleRequest '' Rani  '' None)) = SendSuccess p"
    by (simp add: unifiedSearch_def sample_defs)
  have c: "homestaysCount (total' (results p)) = 6 \<and> guidesCount (total' (results p)) = 3
     \<and> productsCount (total' (results p)) = 3"
    using p by (auto simp add: unifiedSearch_def sample_defs)
  from overall_is_sum [OF p] c p show ?thesis by simp
qed

text \<open>
  C5. When the type filter is \<^verbatim>\<open>homestays\<close>, \<^verbatim>\<open>guides\<close> or \<^verbatim>\<open>products\<close>, every query issued
  is on the model of the selected type (none is issued for the other two), and in the
  envelope the other two types have an empty item list and count 0 and the overall count
  is the count of the selected type.
\<close>

theorem single_type_filter:
  "(query_type req = Some (js ''homestays'') \<longrightarrow>
      (\<forall>q\<in>set (fst (unifiedSearch env req)). modelOf q = HomestayModel)
    \<and> (\<forall>p. snd (unifiedSearch env req) = SendSuccess p \<longrightarrow>
          guides (results p) = [] \<and> guidesCount (total' (results p)) = 0
        \<and> products (results p) = [] \<and> productsCount (total' (results p)) = 0
        \<and> overall (total' (results p)) = homestaysCount (total' (results p))))
   \<and> (query_type req = Some (js ''guides'') \<longrightarrow>
      (\<forall>q\<in>set (fst (unifiedSearch env req)). modelOf q = GuideModel)
    \<and> (\<forall>p. snd (unifiedSearch env req) = SendSuccess p \<longrightarrow>
          homestays (results p) = [] \<and> homestaysCount (total' (results p)) = 0
        \<and> products (results p) = [] \<and> productsCount (total' (results p)) = 0
        \<and> overall (total' (results p)) = guidesCount (total' (results p))))
   \<and> (query_type req = Some (js ''products'') \<longrightarrow>
      (\<forall>q\<in>set (fst (unifiedSearch env req)). modelOf q = ProductModel)
    \<and> (\<forall>p. snd (unifiedSearch env req) = SendSuccess p \<longrightarrow>
          homestays (results p) = [] \<and> homestaysCount (total' (results p)) = 0
        \<and> guides (results p) = [] \<and> guidesCount (total' (results p)) = 0
        \<and> overall (total' (results p)) = productsCount (total' (results p))))"
proof (intro conjI impI)
  assume "query_type req = Some (js ''homestays'')"
  then have ty: "searchType req = js ''homestays''"
    by (simp add: searchType_Some js_type_names)
  from single_type [OF ty, of env]
  show "\<forall>q\<in>set (fst (unifiedSearch env req)). modelOf q = HomestayModel"
    by (simp add: active_cases)
  from single_type [OF ty, of env]
  show "\<forall>p. snd (unifiedSearch env req) = SendSuccess p \<longrightarrow>
          guides (results p) = [] \<and> guidesCount (total' (results p)) = 0
        \<and> products (results p) = [] \<and> productsCount (total' (results p)) = 0
        \<and> overall (total' (results p)) = homestaysCount (total' (results p))"
    by (simp add: active_cases overall_aux)
next
  assume "query_type req = Some (js ''guides'')"
  then have ty: "searchType req = js ''guides''"
    by (simp add: searchType_Some js_type_names)
  from single_type [OF ty, of env]
  show "\<forall>q\<in>set (fst (unifiedSearch env req)). modelOf q = GuideModel"
    by (simp add: active_cases)
  from single_type [OF ty, of env]
  show "\<forall>p. snd (unifiedSearch env req) = SendSuccess p \<longrightarrow>
          homestays (results p) = [] \<and> homestaysCount (total' (results p)) = 0
        \<and> products (results p) = [] \<and> productsCount (total' (results p)) = 0
        \<and> overall (total' (results p)) = guidesCount (total' (results p))"
    by (simp add: active_cases overall_aux)
next
  assume "query_type req = Some (js ''products'')"
  then have ty: "searchType req = js ''products''"
    by (simp add: searchType_Some js_type_names)
  from single_type [OF ty, of env]
  show "\<forall>q\<in>set (fst (unifiedSearch env req)). modelOf q = ProductModel"
    by (simp add: active_cases)
  from single_type [OF ty, of env]
  show "\<forall>p. snd (unifiedSearch env req) = SendSuccess p \<longrightarrow>
          homestays (results p) = [] \<and> homestaysCount (total' (results p)) = 0
        \<and> guides (results p) = [] \<and> guidesCount (total' (results p)) = 0
        \<and> overall (total' (results p)) = productsCount (total' (results p))"
    by (simp add: active_cases overall_aux)
qed

theorem single_type_filter_witness:
  "map modelOf (fst (unifiedSearch sampleEnv (sampleRequest '' Rani  '' (Some ''homestays''))))
     = [HomestayModel, HomestayModel]
   \<and> (\<exists>p. snd (unifiedSearch sampleEnv (sampleRequest '' Rani  '' (Some ''homestays'')))
          = SendSuccess p
        \<and> map doc_id (homestays (results p)) = [''h6'']
        \<and> guides (results p) = [] \<and> products (results p) = []
        \<and> total' (results p)
          = \<lparr>homestaysCount = 6, guidesCount = 0, productsCount = 0, overall = 6\<rparr>)
   \<and> map modelOf (fst (unifiedSearch sampleEnv (sampleRequest '' Rani  '' (Some ''guides''))))
     = [GuideModel, GuideModel]
   \<and> (\<exists>p. snd (unifiedSearch sampleEnv (sampleRequest '' Rani  '' (Some ''guides'')))
          = SendSuccess p
        \<and> homestays (results p) = [] \<and> guides (results p) = [] \<and> products (results p) = []
        \<and> total' (results p)
          = \<lparr>homestaysCount = 0, guidesCount = 3, productsCount = 0, overall = 3\<rparr>)
   \<and> map modelOf (fst (unifiedSearch sampleEnv (sampleRequest '' Rani  '' (Some ''products''))))
     = [ProductModel, ProductModel]
   \<and> (\<exists>p. snd (unifiedSearch sampleEnv (sampleRequest '' Rani  '' (Some ''products'')))
          = SendSuccess p
        \<and> homestays (results p) = [] \<and> guides (results p) = [] \<and> products (results p) = []
        \<and> total' (results p)
          = \<lparr>homestaysCount = 0, guidesCount = 0, productsCount = 3, overall = 3\<rparr>)"
proof -
  have h: "query_type (sampleRequest '' Rani  '' (Some ''homestays'')) = Some (js ''homestays'')"
    and g: "query_type (sampleRequest '' Rani  '' (Some ''guides'')) = Some (js ''guides'')"
    and p: "query_type (sampleRequest '' Rani  '' (Some ''products'')) = Some (js ''products'')"
    by (simp_all add: sampleRequest_def)
  note t = single_type_filter [of "sampleRequest '' Rani  '' (Some ''homestays'')" sampleEnv]
    single_type_filter [of "sampleRequest '' Rani  '' (Some ''guides'')" sampleEnv]
    single_type_filter [of "sampleRequest '' Rani  '' (Some ''products'')" sampleEnv]
  have "map modelOf (fst (unifiedSearch sampleEnv (sampleRequest '' Rani  '' (Some ''homestays''))))
     = [HomestayModel, HomestayModel]"
    by (simp add: unifiedSearch_def sample_defs)
  moreover have "\<exists>p. snd (unifiedSearch sampleEnv (sampleRequest '' Rani  '' (Some ''homestays'')))
          = SendSuccess p
        \<and> map doc_id (homestays (results p)) = [''h6'']
        \<and> guides (results p) = [] \<and> products (results p) = []
        \<and> total' (results p)
          = \<lparr>homestaysCount = 6, guidesCount = 0, productsCount = 0, overall = 6\<rparr>"
    by (simp add: unifiedSearch_def sample_defs)
  moreover have "map modelOf (fst (unifiedSearch sampleEnv (sampleRequest '' Rani  '' (Some ''guides''))))
     = [GuideModel, GuideModel]"
    by (simp add: unifiedSearch_def sample_defs)
  moreover have "\<exists>p. snd (unifiedSearch sampleEnv (sampleRequest '' Rani  '' (Some ''guides'')))
          = SendSuccess p
        \<and> homestays (results p) = [] \<and> guides (results p) = [] \<and> products (results p) = []
        \<and> total' (results p)
          = \<lparr>homestaysCount = 0, guidesCount = 3, productsCount = 0, overall = 3\<rparr>"
    by (simp add: unifiedSearch_def sample_defs)
  moreover have "map modelOf (fst (unifiedSearch sampleEnv (sampleRequest '' Rani  '' (Some ''products''))))
     = [ProductModel, ProductModel]"
    by (simp add: unifiedSearch_def sample_defs)
  moreover have "\<exists>p. snd (unifiedSearch sampleEnv (sampleRequest '' Rani  '' (Some ''products'')))
          = SendSuccess p
        \<and> homestays (results p) = [] \<and> guides (results p) = [] \<and> products (results p) = []
        \<and> total' (results p)
          = \<lparr>homestaysCount = 0, guidesCount = 0, productsCount = 3, overall = 3\<rparr>"
    by (simp add: unifiedSearch_def sample_defs)
  ultimately show ?thesis using t h g p by blast
qed

text \<open>
  C6. When the term has fewer than 2 code units, \<^verbatim>\<open>unifiedSearch\<close> and \<^verbatim>\<open>autocomplete\<close> send
  the validation error with status 400 naming the field \<^verbatim>\<open>q\<close>, whatever the type, page and
  limit parameters and whatever the environment, and issue no query.
\<close>

theorem short_term_rejected:
  "length (searchTerm req) < 2 \<Longrightarrow>
     unifiedSearch env req
       = ([], SendError ''Validation failed'' 400
               (Some [\<lparr>field = ''q'', message = ''Search query must be at least 2 characters''\<rparr>]))
     \<and> autocomplete env req
       = ([], SendError ''Validation failed'' 400
               (Some [\<lparr>field = ''q'', message = ''Search query must be at least 2 characters''\<rparr>]))"
  using rejected_both [of req env] by (simp add: validationFailed_def)

theorem short_term_rejected_witness:
  "length (searchTerm (sampleRequest '' a '' (Some ''guides''))) = 1
   \<and> unifiedSearch sampleEnv (sampleRequest '' a '' (Some ''guides''))
       = ([], SendError ''Validation failed'' 400
               (Some [\<lparr>field = ''q'', message = ''Search query must be at least 2 characters''\<rparr>]))
   \<and> autocomplete sampleEnv (sampleRequest '' a '' (Some ''guides''))
       = ([], SendError ''Validation failed'' 400
               (Some [\<lparr>field = ''q'', message = ''Search query must be at least 2 characters''\<rparr>]))"
proof -
  have h: "length (searchTerm (sampleRequest '' a '' (Some ''guides''))) = 1"
    by (simp add: sample_defs)
  then have "length (searchTerm (sampleRequest '' a '' (Some ''guides''))) < 2" by simp
  from short_term_rejected [OF this, of sampleEnv] h show ?thesis by simp
qed

text \<open>
  C7 as stated fails on the code: \<^verbatim>\<open>(page - 1) * limit\<close> is a double product. When the parser
  answers page \<open>9007199254740992\<close> (\<open>2^53\<close>) and limit 7, every fetch is issued with
  \<^verbatim>\<open>skip = 63050394783186936\<close>, while \<open>(page - 1) * limit\<close> is \<open>63050394783186937\<close>.
\<close>

theorem skip_rounded_product:
  "parsePaginationParams farPageEnv (Some (js ''9007199254740992'')) (Some (js ''7''))
     = (9007199254740992, 7)
   \<and> map (\<lambda>fq. (model fq, skip fq, limit fq))
        (findsOf (fst (unifiedSearch farPageEnv
           \<lparr>query_q = Some (js ''Rani''), query_type = None,
            query_page = Some (js ''9007199254740992''), query_limit = Some (js ''7'')\<rparr>)))
     = [(HomestayModel, Some (Num 63050394783186936), 7),
        (GuideModel, Some (Num 63050394783186936), 7),
        (ProductModel, Some (Num 63050394783186936), 7)]
   \<and> ((9007199254740992 - 1) * 7 :: int) = 63050394783186937"
  by (simp add: unifiedSearch_def sample_defs roundDouble_63050394783186937)

text \<open>
  C7, amended. With \<open>(pg, pageSize)\<close> the result of the pagination parser: every fetch that
  \<^verbatim>\<open>unifiedSearch\<close> issues has \<^verbatim>\<open>limit = pageSize\<close> and, when \<open>pg - 1\<close> and
  \<open>(pg - 1) * pageSize\<close> are below \<open>2^53\<close> in magnitude, \<^verbatim>\<open>skip = (pg - 1) * pageSize\<close>; for a
  valid term each active type has its fetch issued; over a database that honours \<^verbatim>\<open>limit\<close>
  and for a positive page size, each item list of the envelope has at most \<open>pageSize\<close>
  items; and for page 2 and limit 5 every fetch has \<^verbatim>\<open>skip = 5\<close> and \<^verbatim>\<open>limit = 5\<close>.
\<close>

theorem per_type_pagination:
  assumes "parsePaginationParams env (query_page req) (query_limit req) = (pg, pageSize)"
  shows "(\<forall>fq. Find fq \<in> set (fst (unifiedSearch env req)) \<longrightarrow>
            limit fq = pageSize
          \<and> (\<bar>pg - 1\<bar> < 2 ^ 53 \<and> \<bar>(pg - 1) * pageSize\<bar> < 2 ^ 53
               \<longrightarrow> skip fq = Some (Num (of_int ((pg - 1) * pageSize)))))
       \<and> (2 \<le> length (searchTerm req) \<and> regExpValid env (searchTerm req) \<longrightarrow>
            (active (searchType req) ''homestays''
               \<longrightarrow> (\<exists>fq. Find fq \<in> set (fst (unifiedSearch env req)) \<and> model fq = HomestayModel))
          \<and> (active (searchType req) ''guides''
               \<longrightarrow> (\<exists>fq. Find fq \<in> set (fst (unifiedSearch env req)) \<and> model fq = GuideModel))
          \<and> (active (searchType req) ''products''
               \<longrightarrow> (\<exists>fq. Find fq \<in> set (fst (unifiedSearch env req)) \<and> model fq = ProductModel)))
       \<and> (\<forall>p. honoursLimit env \<and> 0 < pageSize \<and> snd (unifiedSearch env req) = SendSuccess p \<longrightarrow>
            length (homestays (results p)) \<le> nat pageSize
          \<and> length (guides (results p)) \<le> nat pageSize
          \<and> length (products (results p)) \<le> nat pageSize)
       \<and> (pg = 2 \<and> pageSize = 5 \<longrightarrow>
            (\<forall>fq. Find fq \<in> set (fst (unifiedSearch env req))
               \<longrightarrow> skip fq = Some (Num 5) \<and> limit fq = 5))"
proof -
  have a: "\<forall>fq. Find fq \<in> set (fst (unifiedSearch env req)) \<longrightarrow>
            limit fq = pageSize
          \<and> (\<bar>pg - 1\<bar> < 2 ^ 53 \<and> \<bar>(pg - 1) * pageSize\<bar> < 2 ^ 53
               \<longrightarrow> skip fq = Some (Num (of_int ((pg - 1) * pageSize))))"
    using issued_finds [OF _ assms] by (auto simp add: skip_safe)
  have d: "pg = 2 \<and> pageSize = 5 \<longrightarrow>
            (\<forall>fq. Find fq \<in> set (fst (unifiedSearch env req))
               \<longrightarrow> skip fq = Some (Num 5) \<and> limit fq = 5)"
  proof (intro impI allI)
    fix fq
    assume h: "pg = 2 \<and> pageSize = 5" and f: "Find fq \<in> set (fst (unifiedSearch env req))"
    from a f have "limit fq = pageSize"
      and "\<bar>pg - 1\<bar> < 2 ^ 53 \<and> \<bar>(pg - 1) * pageSize\<bar> < 2 ^ 53
               \<longrightarrow> skip fq = Some (Num (of_int ((pg - 1) * pageSize)))"
      by blast+
    with h show "skip fq = Some (Num 5) \<and> limit fq = 5" by simp
  qed
  have b: "2 \<le> length (searchTerm req) \<and> regExpValid env (searchTerm req) \<longrightarrow>
            (active (searchType req) ''homestays''
               \<longrightarrow> (\<exists>fq. Find fq \<in> set (fst (unifiedSearch env req)) \<and> model fq = HomestayModel))
          \<and> (active (searchType req) ''guides''
               \<longrightarrow> (\<exists>fq. Find fq \<in> set (fst (unifiedSearch env req)) \<and> model fq = GuideModel))
          \<and> (active (searchType req) ''products''
               \<longrightarrow> (\<exists>fq. Find fq \<in> set (fst (unifiedSearch env req)) \<and> model fq = ProductModel))"
    using active_issued [of req env] by blast
  have c: "\<forall>p. honoursLimit env \<and> 0 < pageSize \<and> snd (unifiedSearch env req) = SendSuccess p \<longrightarrow>
            length (homestays (results p)) \<le> nat pageSize
          \<and> length (guides (results p)) \<le> nat pageSize
          \<and> length (products (results p)) \<le> nat pageSize"
    using page_bounded [OF _ _ assms] by blast
  show ?thesis by (rule conjI [OF a conjI [OF b conjI [OF c d]]])
qed

theorem per_type_pagination_witness:
  "parsePaginationParams sampleEnv (Some (js ''2'')) (Some (js ''5'')) = (2, 5)
   \<and> map (\<lambda>fq. (model fq, skip fq, limit fq))
        (findsOf (fst (unifiedSearch sampleEnv (sampleRequest '' Rani  '' None))))
     = [(HomestayModel, Some (Num 5), 5), (GuideModel, Some (Num 5), 5),
        (ProductModel, Some (Num 5), 5)]
   \<and> (\<exists>p. snd (unifiedSearch sampleEnv (sampleRequest '' Rani  '' None)) = SendSuccess p
        \<and> map doc_id (homestays (results p)) = [''h6'']
        \<and> guides (results p) = [] \<and> products (results p) = [])"
proof -
  let ?req = "sampleRequest '' Rani  '' None"
  have pp: "parsePaginationParams sampleEnv (query_page ?req) (query_limit ?req) = (2, 5)"
    by (simp add: sample_defs)
  have pp': "parsePaginationParams sampleEnv (Some (js ''2'')) (Some (js ''5'')) = (2, 5)"
    by (simp add: sample_defs)
  have v: "2 \<le> length (searchTerm ?req) \<and> regExpValid sampleEnv (searchTerm ?req)"
    by (simp add: sample_defs)
  have a: "active (searchType ?req) ''homestays'' \<and> active (searchType ?req) ''guides''
      \<and> active (searchType ?req) ''products''"
    by (simp add: sample_defs)
  have hl: "honoursLimit sampleEnv \<and> (0::int) < 5"
    by (simp add: sampleEnv_def honoursLimit_memEnv)
  have f: "map (\<lambda>fq. (model fq, skip fq, limit fq)) (findsOf (fst (unifiedSearch sampleEnv ?req)))
     = [(HomestayModel, Some (Num 5), 5), (GuideModel, Some (Num 5), 5),
        (ProductModel, Some (Num 5), 5)]"
    by (simp add: unifiedSearch_def sample_defs)
  have s: "\<exists>p. snd (unifiedSearch sampleEnv ?req) = SendSuccess p
        \<and> map doc_id (homestays (results p)) = [''h6'']
        \<and> guides (results p) = [] \<and> products (results p) = []"
    by (simp add: unifiedSearch_def sample_defs)
  note T = per_type_pagination [OF pp]
  from T have "\<forall>fq. Find fq \<in> set (fst (unifiedSearch sampleEnv ?req)) \<longrightarrow>
      limit fq = 5 \<and> skip fq = Some (Num 5)"
    by simp
  moreover from T v a
  have "\<exists>fq. Find fq \<in> set (fst (unifiedSearch sampleEnv ?req)) \<and> model fq = HomestayModel"
    by simp
  moreover from T hl
  have "\<forall>p. snd (unifiedSearch sampleEnv ?req) = SendSuccess p \<longrightarrow>
      length (homestays (results p)) \<le> nat 5 \<and> length (guides (results p)) \<le> nat 5
      \<and> length (products (results p)) \<le> nat 5"
    by simp
  ultimately show ?thesis using pp' f s by simp
qed

text \<open>
  C8. When one of the queries issued by \<^verbatim>\<open>unifiedSearch\<close> or by \<^verbatim>\<open>autocomplete\<close> fails, the
  response is the fixed error response with status 500: its message is a constant, it has
  no field errors and carries no result; the failure is turned into this response and not
  passed on.
\<close>

theorem query_failure_is_generic_500:
  "((\<exists>q\<in>set (fst (unifiedSearch env req)). fails env q)
      \<longrightarrow> snd (unifiedSearch env req) = SendError ''Failed to perform search'' 500 None)
   \<and> ((\<exists>q\<in>set (fst (autocomplete env req)). fails env q)
      \<longrightarrow> snd (autocomplete env req) = SendError ''Failed to get suggestions'' 500 None)"
  using unifiedSearch_failure autocomplete_failure by blast

theorem query_failure_is_generic_500_witness:
  "map (fails countsDown) (fst (unifiedSearch countsDown (sampleRequest '' Rani  '' None)))
     = [False, False, False, True, True, True]
   \<and> snd (unifiedSearch countsDown (sampleRequest '' Rani  '' None))
     = SendError ''Failed to perform search'' 500 None
   \<and> map (fails aggregateDown) (fst (autocomplete aggregateDown (sampleRequest '' Rani  '' None)))
     = [False, False, False, True]
   \<and> snd (autocomplete aggregateDown (sampleRequest '' Rani  '' None))
     = SendError ''Failed to get suggestions'' 500 None"
proof -
  have 1: "map (fails countsDown) (fst (unifiedSearch countsDown (sampleRequest '' Rani  '' None)))
     = [False, False, False, True, True, True]"
    by (simp add: unifiedSearch_def sample_defs)
  have 2: "map (fails aggregateDown) (fst (autocomplete aggregateDown (sampleRequest '' Rani  '' None)))
     = [False, False, False, True]"
    by (simp add: autocomplete_def sample_defs)
  have "True \<in> set (map (fails countsDown)
      (fst (unifiedSearch countsDown (sampleRequest '' Rani  '' None))))"
    unfolding 1 by simp
  then have 3: "\<exists>q\<in>set (fst (unifiedSearch countsDown (sampleRequest '' Rani  '' None))).
      fails countsDown q"
    by auto
  have "True \<in> set (map (fails aggregateDown)
      (fst (autocomplete aggregateDown (sampleRequest '' Rani  '' None))))"
    unfolding 2 by simp
  then have 4: "\<exists>q\<in>set (fst (autocomplete aggregateDown (sampleRequest '' Rani  '' None))).
      fails aggregateDown q"
    by auto
  note t = query_failure_is_generic_500 [of countsDown "sampleRequest '' Rani  '' None"]
    query_failure_is_generic_500 [of aggregateDown "sampleRequest '' Rani  '' None"]
  from t 1 2 3 4 show ?thesis by blast
qed



end
